theory Spec2Isabelle
  imports Complex_Main "HOL-Library.Char_ord" "HOL-Library.List_Lexorder" "HOL-Library.AList"
begin

section \<open>Python values and exceptions\<close>

text \<open>
  The exceptions the modelled functions raise. \<open>NameError\<close> carries the action name that
  \<open>Domain._raise_action_not_found_exception\<close> reports; \<open>AttributeError\<close> is Python's
  error for reading an attribute of \<open>None\<close>, \<open>IndexError\<close> and \<open>KeyError\<close> its errors for
  a list index out of range and a missing dictionary key, \<open>TypeError\<close> its error for
  \<open>None\<close> used as a list index.
\<close>

datatype error = NameError string | AttributeError | IndexError | KeyError | TypeError

text \<open>
  The members of a sub-state (\<open>SubState = Dict[Text, Union[Text, Tuple[Union[float, Text]]]]\<close>
  in \<open>rasa/core/domain.py\<close>), together with what \<open>json.loads\<close> can put in their place:
  \<open>null\<close> and a list.
\<close>

datatype atom = AText string | ANum real

datatype pyval = VNone | VText string | VTuple "atom list" | VList "atom list"

text \<open>Python's truth value of such a member: \<open>None\<close>, \<open>""\<close>, \<open>()\<close> and \<open>[]\<close> are false.\<close>

fun truthy :: "pyval \<Rightarrow> bool" where
  "truthy VNone = False"
| "truthy (VText s) = (s \<noteq> [])"
| "truthy (VTuple xs) = (xs \<noteq> [])"
| "truthy (VList xs) = (xs \<noteq> [])"

text \<open>The truth value of an \<open>Optional[Text]\<close>: \<open>None\<close> and the empty string are false.\<close>

fun truthy_text :: "string option \<Rightarrow> bool" where
  "truthy_text None = False"
| "truthy_text (Some s) = (s \<noteq> [])"

section \<open>Constants\<close>

definition ACTION_NAME :: string where "ACTION_NAME = ''action_name''"
definition ACTION_TEXT :: string where "ACTION_TEXT = ''action_text''"
definition ENTITIES :: string where "ENTITIES = ''entities''"
definition INTENT :: string where "INTENT = ''intent''"

text \<open>
  Modelled from the spec: the constants of \<open>rasa/core/constants.py\<close> and
  \<open>rasa/core/actions/action.py\<close>, which the sources import and which are not among them.
  The spec names them by their role only (the "wait for user" action, the "session start"
  action, the restart, back and session-start intents, the "must be unset" sentinel, the
  "rule snippet" marker action); the strings are the names the sources and their tests use
  for them (\<open>action_listen\<close>, \<open>action_session_start\<close>, \<open>should_not_be_set\<close>, \<open>prev_action\<close>,
  \<open>active_loop\<close>, \<open>name\<close>).
\<close>

definition ACTION_LISTEN_NAME :: string where "ACTION_LISTEN_NAME = ''action_listen''"
definition ACTION_RESTART_NAME :: string where "ACTION_RESTART_NAME = ''action_restart''"
definition ACTION_BACK_NAME :: string where "ACTION_BACK_NAME = ''action_back''"
definition ACTION_SESSION_START_NAME :: string where
  "ACTION_SESSION_START_NAME = ''action_session_start''"
definition RULE_SNIPPET_ACTION_NAME :: string where "RULE_SNIPPET_ACTION_NAME = ''...''"
definition USER_INTENT_RESTART :: string where "USER_INTENT_RESTART = ''restart''"
definition USER_INTENT_BACK :: string where "USER_INTENT_BACK = ''back''"
definition USER_INTENT_SESSION_START :: string where
  "USER_INTENT_SESSION_START = ''session_start''"
definition UTTER_PREFIX :: string where "UTTER_PREFIX = ''utter_''"
definition SHOULD_NOT_BE_SET :: pyval where "SHOULD_NOT_BE_SET = VText ''should_not_be_set''"
definition USER :: string where "USER = ''user''"
definition SLOTS :: string where "SLOTS = ''slots''"
definition PREVIOUS_ACTION :: string where "PREVIOUS_ACTION = ''prev_action''"
definition ACTIVE_LOOP :: string where "ACTIVE_LOOP = ''active_loop''"
definition LOOP_NAME :: string where "LOOP_NAME = ''name''"

section \<open>Events and the tracker\<close>

text \<open>
  A user message as the sources read it: \<open>intent_name\<close> is
  \<open>intent.get(INTENT_NAME_KEY)\<close>, and each entity is a dictionary.
\<close>

record user_uttered =
  message_text :: "string option"
  intent_name :: "string option"
  entities :: "(string \<times> string) list list"

datatype event_kind =
    UserUttered user_uttered
  | ActionExecuted string "string option" "real option"
  | ActionExecutionRejected string "string option" "real option"
  | SlotSet string pyval
  | ActiveLoopChanged "string option"
  | FormValidation bool
  | SessionStarted
  | Restarted
  | BotUttered string
  | ReminderScheduled string
  | ReminderCancelled string

record event =
  timestamp :: real
  kind :: event_kind

text \<open>
  The projection of a tracker: the attributes and properties of \<open>DialogueStateTracker\<close>
  that the sources read. The class itself (\<open>rasa/core/trackers.py\<close>) is not among the
  sources, so each property the code reads is a field here: \<open>latest_action\<close> is the
  dictionary, \<open>latest_action_name\<close> and \<open>active_loop_name\<close> are the properties of those
  names, \<open>active_loop_rejected\<close> is the truth value of \<open>active_loop.get(LOOP_REJECTED)\<close>,
  \<open>paused\<close> is \<open>is_paused()\<close>.
\<close>

record projection =
  latest_message :: "user_uttered option"
  latest_action :: "string \<rightharpoonup> string"
  latest_action_name :: "string option"
  active_loop_name :: "string option"
  active_loop_rejected :: bool
  followup_action :: "string option"
  paused :: bool

record tracker =
  sender_id :: string
  events :: "event list"
  proj :: projection

text \<open>
  Modelled from the spec: \<open>DialogueStateTracker.update\<close> (section 4.1: "\<open>apply(event)\<close>
  appends the event and updates the projection according to the event's type-specific
  folding rule"). The folding rule of the event classes (\<open>rasa/core/events\<close>, not among
  the sources) is the parameter \<open>apply_to\<close>.
\<close>

definition update :: "(event \<Rightarrow> projection \<Rightarrow> projection) \<Rightarrow> event \<Rightarrow> tracker \<Rightarrow> tracker" where
  "update apply_to e t = t\<lparr>events := events t @ [e], proj := apply_to e (proj t)\<rparr>"

text \<open>Modelled from the spec: \<open>DialogueStateTracker.clear_followup_action\<close> forgets the
  pending follow-up action.\<close>

definition clear_followup_action :: "tracker \<Rightarrow> tracker" where
  "clear_followup_action t = t\<lparr>proj := (proj t)\<lparr>followup_action := None\<rparr>\<rparr>"

section \<open>The domain\<close>

text \<open>The per-intent properties as a domain file gives them: \<open>use_entities\<close> is \<open>True\<close>, a
  list, or one of \<open>False\<close> and \<open>None\<close>; a missing key is \<open>None\<close> of the option type.\<close>

datatype use_entities = UseTrue | UseFalse | UseNone | UseList "string list"

record intent_file_properties =
  use_entities_key :: "use_entities option"
  ignore_entities_key :: "string list option"

text \<open>The properties as the domain keeps them: \<open>used_entities\<close> replaces the two keys.\<close>

record intent_properties =
  used_entities :: "string list"

record session_config =
  session_expiration_time :: real
  carry_over_slots :: bool

record domain =
  action_names :: "string list"
  domain_entities :: "string list"
  intent_props :: "string \<rightharpoonup> intent_properties"
  session_cfg :: session_config

text \<open>
  \<open>Domain._transform_intent_properties_for_internal_use\<close>: the defaults of \<open>setdefault\<close>
  (\<open>True\<close> and the empty list), the empty list for a false \<open>use_entities\<close>, the included
  entities (all entities of the domain for \<open>True\<close>, else the listed ones), the excluded
  ones, and their difference, listed and sorted.
\<close>

definition transform_intent_properties_for_internal_use ::
  "intent_file_properties \<Rightarrow> string list \<Rightarrow> intent_properties" where
  "transform_intent_properties_for_internal_use p ents =
     (let use_entities = (case use_entities_key p of None \<Rightarrow> UseTrue | Some u \<Rightarrow> u);
          ignore_entities = (case ignore_entities_key p of None \<Rightarrow> [] | Some xs \<Rightarrow> xs);
          use_entities =
            (case use_entities of
               UseFalse \<Rightarrow> UseList [] | UseNone \<Rightarrow> UseList [] | u \<Rightarrow> u);
          included_entities =
            (case use_entities of UseTrue \<Rightarrow> set ents | UseList xs \<Rightarrow> set xs | _ \<Rightarrow> {});
          excluded_entities = set ignore_entities
      in \<lparr>used_entities = sorted_list_of_set (included_entities - excluded_entities)\<rparr>)"

text \<open>\<open>Domain.intent_config\<close>: \<open>self.intent_properties.get(intent_name, {})\<close>; the empty
  dictionary is \<open>None\<close>. The intent name itself may be \<open>None\<close>, which is no key.\<close>

definition intent_config :: "domain \<Rightarrow> string option \<Rightarrow> intent_properties option" where
  "intent_config d n = (case n of None \<Rightarrow> None | Some i \<Rightarrow> intent_props d i)"

text \<open>
  A Python \<open>set\<close> of strings is modelled by the list of its members in the order in which
  iteration yields them. The parameter \<open>py_set\<close> is the constructor \<open>set(iterable)\<close>: it
  takes the items in the order the iterable gives them and returns the members in the
  set's own iteration order, which for strings follows their hash values and not the order
  of insertion. A constructor is well-formed when it keeps exactly the items, once each.
\<close>

definition py_set_ok :: "(string list \<Rightarrow> string list) \<Rightarrow> bool" where
  "py_set_ok py_set = (\<forall>xs. set (py_set xs) = set xs \<and> distinct (py_set xs))"

text \<open>\<open>Domain._get_featurized_entities\<close>: the names of the message's entities that have
  the key \<open>entity\<close>, intersected with the wanted ones; without a configuration every name
  is wanted.\<close>

definition get_featurized_entities ::
  "(string list \<Rightarrow> string list) \<Rightarrow> domain \<Rightarrow> user_uttered \<Rightarrow> string list" where
  "get_featurized_entities py_set d m =
     (let entity_names = py_set (List.map_filter (\<lambda>entity. map_of entity ''entity'') (entities m));
          wanted_entities =
            py_set (case intent_config d (intent_name m) of
                      None \<Rightarrow> entity_names
                    | Some c \<Rightarrow> used_entities c)
      in py_set (filter (\<lambda>x. x \<in> set wanted_entities) entity_names))"

text \<open>
  A sub-state and a state are dictionaries; they are association lists here, in the
  order of their items, read with \<open>map_of\<close>.
\<close>

type_synonym sub_state = "(string \<times> pyval) list"
type_synonym state = "(string \<times> sub_state) list"

text \<open>
  \<open>Domain._get_user_sub_state\<close>. \<open>UserUttered.is_empty\<close> and \<open>UserUttered.as_sub_state\<close>
  are methods of the event class, parameters here.
\<close>

definition get_user_sub_state ::
  "(user_uttered \<Rightarrow> bool) \<Rightarrow> (user_uttered \<Rightarrow> sub_state) \<Rightarrow> (string list \<Rightarrow> string list)
     \<Rightarrow> domain \<Rightarrow> tracker \<Rightarrow> sub_state" where
  "get_user_sub_state is_empty as_sub_state py_set d t =
     (case latest_message (proj t) of
        None \<Rightarrow> []
      | Some m \<Rightarrow>
          if is_empty m then []
          else (let sub = as_sub_state m;
                    ents = get_featurized_entities py_set d m
                in if ents \<noteq> [] then AList.update ENTITIES (VTuple (map AText ents)) sub
                   else AList.delete ENTITIES sub))"

text \<open>The entity names that a user sub-state holds under the key \<open>entities\<close>.\<close>

definition retained_entities :: "sub_state \<Rightarrow> string set" where
  "retained_entities sub =
     (case map_of sub ENTITIES of
        Some (VTuple xs) \<Rightarrow> {s. AText s \<in> set xs}
      | _ \<Rightarrow> {})"

text \<open>\<open>list.index\<close>: the first position of the element, \<open>None\<close> for \<open>ValueError\<close>.\<close>

fun py_index :: "'a list \<Rightarrow> 'a \<Rightarrow> nat option" where
  "py_index [] a = None"
| "py_index (x # xs) a = (if x = a then Some 0 else map_option Suc (py_index xs a))"

text \<open>\<open>Domain.index_for_action\<close>: the \<open>ValueError\<close> of \<open>index\<close> is turned into the
  \<open>NameError\<close> of \<open>_raise_action_not_found_exception\<close>.\<close>

definition index_for_action :: "domain \<Rightarrow> string \<Rightarrow> error + nat option" where
  "index_for_action d a =
     (case py_index (action_names d) a of
        Some i \<Rightarrow> Inr (Some i)
      | None \<Rightarrow> Inl (NameError a))"

definition num_actions :: "domain \<Rightarrow> nat" where
  "num_actions d = length (action_names d)"

text \<open>\<open>Domain.action_for_name\<close>, as far as the name goes: an unknown name raises; the
  action object is modelled by its name.\<close>

definition action_for_name :: "domain \<Rightarrow> string \<Rightarrow> error + string" where
  "action_for_name d a = (if a \<in> set (action_names d) then Inr a else Inl (NameError a))"

section \<open>The message processor: next action probabilities\<close>

text \<open>\<open>MessageProcessor._prob_array_for_action\<close>: a pair, whose first component is the
  one-hot list or \<open>None\<close>, and whose second is \<open>None\<close>.\<close>

type_synonym probabilities = "real list option \<times> string option"

definition prob_array_for_action :: "domain \<Rightarrow> string \<Rightarrow> error + probabilities" where
  "prob_array_for_action d a =
     (case index_for_action d a of
        Inl e \<Rightarrow> Inl e
      | Inr (Some idx) \<Rightarrow> Inr (Some ((replicate (num_actions d) 0)[idx := 1]), None)
      | Inr None \<Rightarrow> Inr (None, None))"

text \<open>
  \<open>MessageProcessor._get_next_action_probabilities\<close>. The follow-up is cleared before
  the look-up, so the tracker is returned beside the result, also when the look-up
  raises. \<open>if result\<close> tests a pair, which is true whatever its components are, so the
  branch that logs the unknown follow-up and falls through to the ensemble is never
  taken. \<open>ensemble\<close> is \<open>policy_ensemble.probabilities_using_best_policy\<close>.
\<close>

definition get_next_action_probabilities ::
  "(tracker \<Rightarrow> probabilities \<times> tracker) \<Rightarrow> domain \<Rightarrow> tracker
     \<Rightarrow> (error + probabilities) \<times> tracker" where
  "get_next_action_probabilities ensemble d t =
     (case followup_action (proj t) of
        None \<Rightarrow> (let (r, t1) = ensemble t in (Inr r, t1))
      | Some followup \<Rightarrow>
          if followup = [] then (let (r, t1) = ensemble t in (Inr r, t1))
          else (let t1 = clear_followup_action t in
                case prob_array_for_action d followup of
                  Inl e \<Rightarrow> (Inl e, t1)
                | Inr result \<Rightarrow> (Inr result, t1)))"

section \<open>The rule policy\<close>

definition DO_NOT_VALIDATE_LOOP :: string where "DO_NOT_VALIDATE_LOOP = ''do_not_validate_loop''"
definition DO_NOT_PREDICT_LOOP_ACTION :: string where
  "DO_NOT_PREDICT_LOOP_ACTION = ''do_not_predict_loop_action''"

text \<open>\<open>DEFAULT_ACTION_MAPPINGS.get\<close>; a key \<open>None\<close> is in no dictionary.\<close>

definition DEFAULT_ACTION_MAPPINGS :: "(string \<times> string) list" where
  "DEFAULT_ACTION_MAPPINGS =
     [(USER_INTENT_RESTART, ACTION_RESTART_NAME),
      (USER_INTENT_BACK, ACTION_BACK_NAME),
      (USER_INTENT_SESSION_START, ACTION_SESSION_START_NAME)]"

text \<open>The policy: its two lookup tables (\<open>self.lookup[RULES]\<close> and
  \<open>self.lookup[RULES_FOR_LOOP_UNHAPPY_PATH]\<close>, dictionaries in insertion order) and the
  fallback settings of the constructor.\<close>

record rule_policy =
  rules :: "(string \<times> string) list"
  rules_for_loop_unhappy_path :: "(string \<times> string) list"
  core_fallback_threshold :: real
  fallback_action_name :: string
  enable_fallback_prediction :: bool

text \<open>\<open>dict.get(key)\<close> on a sub-state: a missing key gives \<open>None\<close>.\<close>

definition py_get :: "sub_state \<Rightarrow> string \<Rightarrow> pyval" where
  "py_get sub key = (case map_of sub key of None \<Rightarrow> VNone | Some v \<Rightarrow> v)"

text \<open>\<open>conversation_state.get(state_type, {})\<close>.\<close>

definition get_sub_state :: "state \<Rightarrow> string \<Rightarrow> sub_state" where
  "get_sub_state st state_type = (case map_of st state_type of None \<Rightarrow> [] | Some sub \<Rightarrow> sub)"

text \<open>The conversion at the head of the inner loop: a list read back from JSON becomes
  a tuple.\<close>

fun as_tuple :: "pyval \<Rightarrow> pyval" where
  "as_tuple (VList xs) = VTuple xs"
| "as_tuple v = v"

text \<open>The test under which \<open>_does_rule_match_state\<close> returns \<open>False\<close> for one item of a
  rule sub-state.\<close>

definition item_mismatch :: "sub_state \<Rightarrow> string \<Rightarrow> pyval \<Rightarrow> bool" where
  "item_mismatch conversation_sub_state key v =
     (let value = as_tuple v in
        (truthy value \<and> value \<noteq> SHOULD_NOT_BE_SET \<and> py_get conversation_sub_state key \<noteq> value)
      \<or> (value = SHOULD_NOT_BE_SET \<and> truthy (py_get conversation_sub_state key)))"

text \<open>\<open>RulePolicy._does_rule_match_state\<close>: \<open>True\<close> unless some item of some sub-state
  of the rule fails the test.\<close>

definition does_rule_match_state :: "state \<Rightarrow> state \<Rightarrow> bool" where
  "does_rule_match_state rule_state conversation_state =
     list_all (\<lambda>(state_type, rule_sub_state).
        list_all (\<lambda>(key, value).
           \<not> item_mismatch (get_sub_state conversation_state state_type) key value)
         rule_sub_state)
      rule_state"

text \<open>
  \<open>RulePolicy._is_rule_applicable\<close>. \<open>rule_key_to_state\<close> is \<open>_rule_key_to_state\<close>, that
  is \<open>json.loads\<close>, a parameter. A state is false when it is the empty dictionary. The
  index is read only when it is in range, as in the source.
\<close>

definition is_rule_applicable ::
  "(string \<Rightarrow> state list) \<Rightarrow> string \<Rightarrow> nat \<Rightarrow> state \<Rightarrow> bool" where
  "is_rule_applicable rule_key_to_state rule_key turn_index conversation_state =
     (let reversed_rule_states = rev (rule_key_to_state rule_key) in
        turn_index \<ge> length reversed_rule_states
      \<or> (reversed_rule_states ! turn_index = [] \<and> conversation_state = [])
      \<or> (reversed_rule_states ! turn_index \<noteq> [] \<and> conversation_state \<noteq> []
          \<and> does_rule_match_state (reversed_rule_states ! turn_index) conversation_state))"

text \<open>\<open>RulePolicy._get_possible_keys\<close>: the keys of the lookup, filtered once for each
  state of the history, the most recent first, each time into a new set.\<close>

fun filter_possible_keys ::
  "(string list \<Rightarrow> string list) \<Rightarrow> (string \<Rightarrow> state list) \<Rightarrow> nat \<Rightarrow> state list
     \<Rightarrow> string list \<Rightarrow> string list" where
  "filter_possible_keys py_set rule_key_to_state i [] possible_keys = possible_keys"
| "filter_possible_keys py_set rule_key_to_state i (s # ss) possible_keys =
     filter_possible_keys py_set rule_key_to_state (Suc i) ss
       (py_set (filter (\<lambda>key. is_rule_applicable rule_key_to_state key i s) possible_keys))"

definition get_possible_keys ::
  "(string list \<Rightarrow> string list) \<Rightarrow> (string \<Rightarrow> state list) \<Rightarrow> (string \<times> string) list
     \<Rightarrow> state list \<Rightarrow> string list" where
  "get_possible_keys py_set rule_key_to_state lookup states =
     filter_possible_keys py_set rule_key_to_state 0 (rev states) (py_set (map fst lookup))"

text \<open>\<open>max(rule_keys, key=len)\<close> on a non-empty iterable: the first item, in the order
  of iteration, that no other item exceeds in length.\<close>

fun max_len_from :: "string \<Rightarrow> string list \<Rightarrow> string" where
  "max_len_from best [] = best"
| "max_len_from best (x # xs) = max_len_from (if length x > length best then x else best) xs"

definition max_len :: "string list \<Rightarrow> string" where
  "max_len xs = (case xs of [] \<Rightarrow> [] | x # rest \<Rightarrow> max_len_from x rest)"

text \<open>\<open>RulePolicy._find_action_from_default_actions\<close>.\<close>

definition find_action_from_default_actions :: "tracker \<Rightarrow> string option" where
  "find_action_from_default_actions t =
     (if latest_action_name (proj t) \<noteq> Some ACTION_LISTEN_NAME then None
      else case latest_message (proj t) of
             None \<Rightarrow> None
           | Some m \<Rightarrow>
               (case intent_name m of
                  None \<Rightarrow> None
                | Some i \<Rightarrow> map_of DEFAULT_ACTION_MAPPINGS i))"

text \<open>\<open>RulePolicy._find_action_from_loop_happy_path\<close>. The first test reads the
  dictionary \<open>latest_action\<close>, the second the property \<open>latest_action_name\<close>.\<close>

definition find_action_from_loop_happy_path :: "tracker \<Rightarrow> string option" where
  "find_action_from_loop_happy_path t =
     (let active_loop_name = active_loop_name (proj t);
          active_loop_rejected = active_loop_rejected (proj t);
          should_predict_loop =
            (truthy_text active_loop_name \<and> \<not> active_loop_rejected
             \<and> latest_action (proj t) ACTION_NAME \<noteq> active_loop_name);
          should_predict_listen =
            (truthy_text active_loop_name \<and> \<not> active_loop_rejected
             \<and> latest_action_name (proj t) = active_loop_name)
      in if should_predict_loop then active_loop_name
         else if should_predict_listen then Some ACTION_LISTEN_NAME
         else None)"

text \<open>
  Modelled from the spec: \<open>get_active_loop_name\<close> of \<open>rasa/core/trackers.py\<close>, the name
  of the active loop of a turn state (the sub-state \<open>active_loop\<close>, "name of currently
  active form/loop, if any"), read as \<open>FormPolicy._get_active_form_name\<close> reads it.
\<close>

definition get_active_loop_name :: "state \<Rightarrow> pyval" where
  "get_active_loop_name st = py_get (get_sub_state st ACTIVE_LOOP) LOOP_NAME"

text \<open>
  \<open>RulePolicy._find_action_from_rules\<close>. \<open>states\<close> is the history that
  \<open>featurizer.prediction_states\<close> computes from the tracker, \<open>now\<close> the clock reading that
  stamps the new event, \<open>apply_to\<close> the folding rule of events. The result is the
  returned name, or the \<open>IndexError\<close> of \<open>[-1]\<close> on an empty list of states, beside the
  tracker as the call leaves it.
\<close>

definition find_action_from_rules ::
  "(event \<Rightarrow> projection \<Rightarrow> projection) \<Rightarrow> (string list \<Rightarrow> string list) \<Rightarrow> (string \<Rightarrow> state list)
     \<Rightarrow> real \<Rightarrow> rule_policy \<Rightarrow> state list \<Rightarrow> tracker \<Rightarrow> (error + string option) \<times> tracker" where
  "find_action_from_rules apply_to py_set rule_key_to_state now policy states t =
     (let rule_keys = get_possible_keys py_set rule_key_to_state (rules policy) states;
          best_rule_key = (if rule_keys \<noteq> [] then max_len rule_keys else []);
          predicted_action_name =
            (if rule_keys \<noteq> [] then map_of (rules policy) best_rule_key else None);
          active_loop_name = active_loop_name (proj t)
      in if truthy_text active_loop_name then
           (let loop_unhappy_keys =
                  get_possible_keys py_set rule_key_to_state
                    (rules_for_loop_unhappy_path policy) states;
                unhappy_path_conditions =
                  map (map_of (rules_for_loop_unhappy_path policy)) loop_unhappy_keys
            in if predicted_action_name = Some ACTION_LISTEN_NAME
                  \<and> rule_key_to_state best_rule_key = []
               then (Inl IndexError, t)
               else
                 (let predicted_listen_from_general_rule =
                        (predicted_action_name = Some ACTION_LISTEN_NAME
                         \<and> \<not> truthy (get_active_loop_name (last (rule_key_to_state best_rule_key))))
                  in if predicted_listen_from_general_rule
                        \<and> Some DO_NOT_PREDICT_LOOP_ACTION \<notin> set unhappy_path_conditions
                     then (Inr active_loop_name, t)
                     else
                       (let predicted_action_name =
                              (if predicted_listen_from_general_rule then None
                               else predicted_action_name);
                            t1 = (if Some DO_NOT_VALIDATE_LOOP \<in> set unhappy_path_conditions
                                  then update apply_to
                                         \<lparr>timestamp = now, kind = FormValidation False\<rparr> t
                                  else t)
                        in (Inr predicted_action_name, t1))))
         else (Inr predicted_action_name, t))"

text \<open>
  Modelled from the spec: \<open>Policy._default_predictions\<close> (section 4.4: an abstaining
  policy returns "the Domain's zero/default vector").
\<close>

definition default_predictions :: "domain \<Rightarrow> real list" where
  "default_predictions d = replicate (num_actions d) 0"

text \<open>\<open>RulePolicy._default_predictions\<close>: the fallback confidence is written at the
  index of the fallback action, whose look-up raises for an unknown name.\<close>

definition rule_default_predictions :: "rule_policy \<Rightarrow> domain \<Rightarrow> error + real list" where
  "rule_default_predictions policy d =
     (let result = default_predictions d in
      if enable_fallback_prediction policy then
        (case index_for_action d (fallback_action_name policy) of
           Inl e \<Rightarrow> Inl e
         | Inr None \<Rightarrow> Inl TypeError
         | Inr (Some i) \<Rightarrow> Inr (result[i := core_fallback_threshold policy]))
      else Inr result)"

text \<open>
  \<open>RulePolicy.predict_action_probabilities\<close>. \<open>prediction_result\<close> is
  \<open>MemoizationPolicy._prediction_result\<close>, which turns the chosen action name into the
  list of probabilities; it is a parameter. A name is chosen when it is neither \<open>None\<close>
  nor empty.
\<close>

definition predict_action_probabilities ::
  "(string \<Rightarrow> tracker \<Rightarrow> domain \<Rightarrow> error + real list) \<Rightarrow> (event \<Rightarrow> projection \<Rightarrow> projection)
     \<Rightarrow> (string list \<Rightarrow> string list) \<Rightarrow> (string \<Rightarrow> state list) \<Rightarrow> real \<Rightarrow> rule_policy
     \<Rightarrow> state list \<Rightarrow> domain \<Rightarrow> tracker \<Rightarrow> (error + real list) \<times> tracker" where
  "predict_action_probabilities prediction_result apply_to py_set rule_key_to_state now policy
       states d t =
     (case rule_default_predictions policy d of
        Inl e \<Rightarrow> (Inl e, t)
      | Inr result \<Rightarrow>
          let default_action_name = find_action_from_default_actions t in
          if truthy_text default_action_name
          then (prediction_result (the default_action_name) t d, t)
          else
            let loop_happy_path_action_name = find_action_from_loop_happy_path t in
            if truthy_text loop_happy_path_action_name
            then (prediction_result (the loop_happy_path_action_name) t d, t)
            else
              (case find_action_from_rules apply_to py_set rule_key_to_state now policy states t of
                 (Inl e, t1) \<Rightarrow> (Inl e, t1)
               | (Inr rules_action_name, t1) \<Rightarrow>
                   if truthy_text rules_action_name
                   then (prediction_result (the rules_action_name) t1 d, t1)
                   else (Inr result, t1)))"

section \<open>The form policy\<close>

text \<open>\<open>FormPolicy._modified_states\<close>: \<open>states[0][PREVIOUS_ACTION]\<close> raises for a first
  state without that key, \<open>states[-1]\<close> for an empty history.\<close>

definition modified_states :: "state list \<Rightarrow> error + state list" where
  "modified_states states =
     (case states of
        [] \<Rightarrow> Inl IndexError
      | s0 # rest \<Rightarrow>
          if length states = 1 \<or> s0 = [] then Inr [[], last states]
          else (case map_of s0 PREVIOUS_ACTION of
                  None \<Rightarrow> Inl KeyError
                | Some sub \<Rightarrow> Inr [[(PREVIOUS_ACTION, sub)], last states]))"

text \<open>\<open>FormPolicy.state_is_unhappy\<close>; \<open>recall_states\<close> is
  \<open>MemoizationPolicy._recall_states\<close>, a parameter.\<close>

definition state_is_unhappy ::
  "(state list \<Rightarrow> string option) \<Rightarrow> state list \<Rightarrow> tracker \<Rightarrow> error + bool" where
  "state_is_unhappy recall_states states t =
     (case modified_states states of
        Inl e \<Rightarrow> Inl e
      | Inr ms \<Rightarrow>
          let memorized_form = recall_states ms in
          Inr (memorized_form \<noteq> None \<and> memorized_form = active_loop_name (proj t)))"

text \<open>\<open>FormPolicy.predict_action_probabilities\<close>.\<close>

definition form_predict_action_probabilities ::
  "(string \<Rightarrow> tracker \<Rightarrow> domain \<Rightarrow> error + real list) \<Rightarrow> (event \<Rightarrow> projection \<Rightarrow> projection)
     \<Rightarrow> (state list \<Rightarrow> string option) \<Rightarrow> real \<Rightarrow> state list \<Rightarrow> domain \<Rightarrow> tracker
     \<Rightarrow> (error + real list) \<times> tracker" where
  "form_predict_action_probabilities prediction_result apply_to recall_states now states d t =
     (let result = default_predictions d in
      if truthy_text (active_loop_name (proj t)) then
        if latest_action_name (proj t) = Some ACTION_LISTEN_NAME then
          if active_loop_rejected (proj t) then
            (case state_is_unhappy recall_states states t of
               Inl e \<Rightarrow> (Inl e, t)
             | Inr True \<Rightarrow>
                 (Inr result, update apply_to \<lparr>timestamp = now, kind = FormValidation False\<rparr> t)
             | Inr False \<Rightarrow> (prediction_result (the (active_loop_name (proj t))) t d, t))
          else (prediction_result (the (active_loop_name (proj t))) t d, t)
        else if latest_action_name (proj t) = active_loop_name (proj t)
        then (prediction_result ACTION_LISTEN_NAME t d, t)
        else (Inr result, t)
      else (Inr result, t))"

section \<open>The message processor: sessions and the execution loop\<close>

record processor =
  dom :: domain
  max_number_of_predictions :: int
  on_circuit_break :: bool

text \<open>
  Modelled from the spec: \<open>DialogueStateTracker.applied_events\<close> (section 4.1:
  "\<open>events_since_last_restart()\<close> returns the suffix of the log after the most recent
  restart/session-start marker, used for "applied" state and for session-expiry checks").
\<close>

fun applied_from :: "event list \<Rightarrow> event list \<Rightarrow> event list" where
  "applied_from acc [] = acc"
| "applied_from acc (e # es) =
     (if kind e = Restarted \<or> kind e = SessionStarted then applied_from [] es
      else applied_from (acc @ [e]) es)"

definition applied_events :: "tracker \<Rightarrow> event list" where
  "applied_events t = applied_from [] (events t)"

text \<open>
  Modelled from the spec: \<open>DialogueStateTracker.get_last_event_for(UserUttered)\<close>, the
  last user event of the session ("the time since the last user event"), \<open>None\<close> when
  there is none.
\<close>

fun is_user_uttered :: "event \<Rightarrow> bool" where
  "is_user_uttered e = (case kind e of UserUttered m \<Rightarrow> True | _ \<Rightarrow> False)"

definition get_last_user_uttered :: "tracker \<Rightarrow> event option" where
  "get_last_user_uttered t =
     (case filter is_user_uttered (applied_events t) of
        [] \<Rightarrow> None
      | u # us \<Rightarrow> Some (last (u # us)))"

text \<open>\<open>SessionConfig.are_sessions_enabled\<close>.\<close>

definition are_sessions_enabled :: "session_config \<Rightarrow> bool" where
  "are_sessions_enabled c = (session_expiration_time c > 0)"

text \<open>
  The floating point numbers of the code (time stamps, clock readings, the expiration
  time) are modelled by the real numbers they denote. Comparing two of them is exact;
  subtracting and dividing them rounds, so the two operations of the floating point
  arithmetic are parameters.
\<close>

record float_arith =
  fl_sub :: "real \<Rightarrow> real \<Rightarrow> real"
  fl_div :: "real \<Rightarrow> real \<Rightarrow> real"

text \<open>\<open>MessageProcessor._has_session_expired\<close>; \<open>now\<close> is the reading of \<open>time.time()\<close>,
  in seconds.\<close>

definition has_session_expired :: "float_arith \<Rightarrow> processor \<Rightarrow> real \<Rightarrow> tracker \<Rightarrow> bool" where
  "has_session_expired F P now t =
     (if \<not> are_sessions_enabled (session_cfg (dom P)) then False
      else case get_last_user_uttered t of
             None \<Rightarrow> False
           | Some user_uttered_event \<Rightarrow>
               (let time_delta_in_seconds = fl_sub F now (timestamp user_uttered_event)
                in fl_div F time_delta_in_seconds 60
                     > session_expiration_time (session_cfg (dom P))))"

text \<open>\<open>MessageProcessor.should_predict_another_action\<close>.\<close>

definition should_predict_another_action :: "string \<Rightarrow> bool" where
  "should_predict_another_action action_name =
     (action_name \<notin> {ACTION_LISTEN_NAME, ACTION_SESSION_START_NAME})"

text \<open>What the external \<open>action.run\<close> does: it returns a list of events or \<open>None\<close>, raises
  \<open>ActionExecutionRejection\<close>, or raises another exception.\<close>

datatype run_outcome = Returns "event list option" | Rejects | Fails

text \<open>
  The clock is read anew for every event: \<open>clock k\<close> is reading number \<open>k\<close> of
  \<open>time.time()\<close> during one call of \<open>_run_action\<close>. Reading 0 stamps the event that the
  processor itself creates (the executed or the rejected action); the events of the
  action get the readings from 1 on, in the order of the loop
  \<open>for e in events: e.timestamp = time.time(); tracker.update(e, self.domain)\<close>.
\<close>

fun log_events ::
  "(event \<Rightarrow> projection \<Rightarrow> projection) \<Rightarrow> (nat \<Rightarrow> real) \<Rightarrow> nat \<Rightarrow> event list \<Rightarrow> tracker
     \<Rightarrow> tracker" where
  "log_events apply_to clock k [] t = t"
| "log_events apply_to clock k (e # es) t =
     log_events apply_to clock (Suc k) es (update apply_to (e\<lparr>timestamp := clock k\<rparr>) t)"

text \<open>\<open>MessageProcessor._log_action_on_tracker\<close>: \<open>None\<close> for the events is the empty
  list, inside this method only; the executed action is logged first, then the events.
  The warning about new slots changes nothing.\<close>

definition log_action_on_tracker ::
  "(event \<Rightarrow> projection \<Rightarrow> projection) \<Rightarrow> (nat \<Rightarrow> real) \<Rightarrow> tracker \<Rightarrow> string option
     \<Rightarrow> event list option \<Rightarrow> string option \<Rightarrow> real option \<Rightarrow> tracker" where
  "log_action_on_tracker apply_to clock t action_name evs policy confidence =
     (let evs = (case evs of None \<Rightarrow> [] | Some es \<Rightarrow> es);
          t1 = (case action_name of
                  None \<Rightarrow> t
                | Some a \<Rightarrow>
                    update apply_to
                      \<lparr>timestamp = clock 0, kind = ActionExecuted a policy confidence\<rparr> t)
      in log_events apply_to clock 1 evs t1)"

text \<open>
  \<open>MessageProcessor._run_action\<close>: the decision to go on, or the exception that leaves the
  method, and the tracker as the call leaves it. \<open>run\<close> is the external \<open>action.run\<close> on the
  action of that name. After a rejection the rejected action is logged and the method
  returns. After another exception the events are the empty list. The action and its
  events are then logged; after that \<open>_send_bot_messages\<close> iterates over the events as
  \<open>action.run\<close> returned them, which raises \<open>TypeError\<close> when that is \<open>None\<close>. Logging the
  slots, sending the bot messages and scheduling and cancelling reminders go to the
  logger, the output channel and the job scheduler, which are outside the model; they
  leave the tracker as it is.
\<close>

definition run_action ::
  "(event \<Rightarrow> projection \<Rightarrow> projection) \<Rightarrow> (string \<Rightarrow> tracker \<Rightarrow> run_outcome) \<Rightarrow> (nat \<Rightarrow> real)
     \<Rightarrow> string \<Rightarrow> tracker \<Rightarrow> string option \<Rightarrow> real option \<Rightarrow> (error + bool) \<times> tracker" where
  "run_action apply_to run clock action t policy confidence =
     (case run action t of
        Rejects \<Rightarrow>
          (Inr (should_predict_another_action action),
           update apply_to
             \<lparr>timestamp = clock 0, kind = ActionExecutionRejected action policy confidence\<rparr> t)
      | Fails \<Rightarrow>
          (Inr (should_predict_another_action action),
           log_action_on_tracker apply_to clock t (Some action) (Some []) policy confidence)
      | Returns None \<Rightarrow>
          (Inl TypeError,
           log_action_on_tracker apply_to clock t (Some action) None policy confidence)
      | Returns (Some evs) \<Rightarrow>
          (Inr (should_predict_another_action action),
           log_action_on_tracker apply_to clock t (Some action) (Some evs) policy confidence))"

text \<open>\<open>MessageProcessor._update_tracker_session\<close>: the session start action is looked
  up in the domain and run, with neither policy nor confidence. The result is the
  exception that leaves the method, if one does, and the tracker.\<close>

definition update_tracker_session ::
  "(event \<Rightarrow> projection \<Rightarrow> projection) \<Rightarrow> (string \<Rightarrow> tracker \<Rightarrow> run_outcome) \<Rightarrow> (nat \<Rightarrow> real)
     \<Rightarrow> float_arith \<Rightarrow> real \<Rightarrow> processor \<Rightarrow> tracker \<Rightarrow> error option \<times> tracker" where
  "update_tracker_session apply_to run clock F now P t =
     (if applied_events t = [] \<or> has_session_expired F P now t then
        (case action_for_name (dom P) ACTION_SESSION_START_NAME of
           Inl e \<Rightarrow> (Some e, t)
         | Inr action \<Rightarrow>
             (case run_action apply_to run clock action t None None of
                (Inl e, t1) \<Rightarrow> (Some e, t1)
              | (Inr continue, t1) \<Rightarrow> (None, t1)))
      else (None, t))"

text \<open>\<open>MessageProcessor._should_handle_message\<close>: the intent is read only for a paused
  tracker; on a tracker without a latest message the read raises.\<close>

definition should_handle_message :: "tracker \<Rightarrow> error + bool" where
  "should_handle_message t =
     (if \<not> paused (proj t) then Inr True
      else case latest_message (proj t) of
             None \<Rightarrow> Inl AttributeError
           | Some m \<Rightarrow> Inr (intent_name m = Some USER_INTENT_RESTART))"

text \<open>\<open>MessageProcessor.is_action_limit_reached\<close>.\<close>

definition is_action_limit_reached :: "processor \<Rightarrow> nat \<Rightarrow> bool \<Rightarrow> bool" where
  "is_action_limit_reached P num_predicted_actions should_predict_another =
     (int num_predicted_actions \<ge> max_number_of_predictions P \<and> should_predict_another)"

text \<open>
  The state of the loop of \<open>_predict_and_execute_next_action\<close>: the tracker, the two
  local variables, and the names of the actions run so far, in order; \<open>raised\<close> holds
  the exception that ended the loop, if one did.
\<close>

record loop_state =
  loop_tracker :: tracker
  should_predict :: bool
  num_predicted_actions :: nat
  executed :: "string list"
  raised :: "error option"

text \<open>The values of the local variables before the loop.\<close>

definition initial_loop_state :: "tracker \<Rightarrow> loop_state" where
  "initial_loop_state t =
     \<lparr>loop_tracker = t, should_predict = True, num_predicted_actions = 0,
      executed = [], raised = None\<rparr>"

text \<open>
  The \<open>while\<close> loop. \<open>predict\<close> is \<open>predict_next_action\<close>, which returns the action, the
  policy and the confidence, or raises, and may change the tracker; \<open>clock n\<close> is the
  clock during iteration \<open>n\<close>. The three tests of the loop condition are made in the order
  of the source, each only if the ones before it hold. An exception of the prediction
  or of \<open>_run_action\<close> leaves the loop before the count is increased.
\<close>

function action_loop ::
  "(event \<Rightarrow> projection \<Rightarrow> projection) \<Rightarrow> (string \<Rightarrow> tracker \<Rightarrow> run_outcome)
     \<Rightarrow> (nat \<Rightarrow> nat \<Rightarrow> real)
     \<Rightarrow> (tracker \<Rightarrow> (error + string \<times> string option \<times> real option) \<times> tracker)
     \<Rightarrow> processor \<Rightarrow> loop_state \<Rightarrow> loop_state" where
  "action_loop apply_to run clock predict P s =
     (if \<not> should_predict s then s
      else if should_handle_message (loop_tracker s) \<noteq> Inr True
      then (case should_handle_message (loop_tracker s) of
              Inl e \<Rightarrow> s\<lparr>raised := Some e\<rparr>
            | Inr b \<Rightarrow> s)
      else if \<not> int (num_predicted_actions s) < max_number_of_predictions P then s
      else (case predict (loop_tracker s) of
              (Inl e, t1) \<Rightarrow> s\<lparr>loop_tracker := t1, raised := Some e\<rparr>
            | (Inr (action, policy, confidence), t1) \<Rightarrow>
                (case run_action apply_to run (clock (num_predicted_actions s)) action t1
                        policy confidence of
                   (Inl e, t2) \<Rightarrow> s\<lparr>loop_tracker := t2, raised := Some e\<rparr>
                 | (Inr continue, t2) \<Rightarrow>
                     action_loop apply_to run clock predict P
                       (s\<lparr>loop_tracker := t2, should_predict := continue,
                          num_predicted_actions := Suc (num_predicted_actions s),
                          executed := executed s @ [action]\<rparr>))))"
  by pat_completeness auto
termination
  by (relation "measure (\<lambda>(apply_to, run, clock, predict, P, s).
        nat (max_number_of_predictions P - int (num_predicted_actions s)))")
     (auto split: prod.splits)

declare action_loop.simps [simp del]

text \<open>
  \<open>MessageProcessor._predict_and_execute_next_action\<close>: the loop from the initial
  values, then the circuit breaker. The result is the final state of the loop and the
  number of calls of the callback \<open>on_circuit_break\<close>. An exception leaves the method
  before the breaker is tested.
\<close>

definition predict_and_execute_next_action ::
  "(event \<Rightarrow> projection \<Rightarrow> projection) \<Rightarrow> (string \<Rightarrow> tracker \<Rightarrow> run_outcome)
     \<Rightarrow> (nat \<Rightarrow> nat \<Rightarrow> real)
     \<Rightarrow> (tracker \<Rightarrow> (error + string \<times> string option \<times> real option) \<times> tracker)
     \<Rightarrow> processor \<Rightarrow> tracker \<Rightarrow> loop_state \<times> nat" where
  "predict_and_execute_next_action apply_to run clock predict P t =
     (let s = action_loop apply_to run clock predict P (initial_loop_state t)
      in if raised s = None
            \<and> is_action_limit_reached P (num_predicted_actions s) (should_predict s)
            \<and> on_circuit_break P
         then (s, 1) else (s, 0))"

text \<open>
  \<open>MessageProcessor.handle_message\<close>, for a processor with a policy ensemble and a
  domain: \<open>log_message\<close> first updates the session of the tracker, then logs the user
  message (the event \<open>user_event\<close>, built from the parsed message) on it; the loop of
  predictions runs on the tracker so obtained. An exception of the session update leaves
  the method with the tracker as it is then.
\<close>

definition handle_message ::
  "(event \<Rightarrow> projection \<Rightarrow> projection) \<Rightarrow> (string \<Rightarrow> tracker \<Rightarrow> run_outcome) \<Rightarrow> (nat \<Rightarrow> real)
     \<Rightarrow> (nat \<Rightarrow> nat \<Rightarrow> real)
     \<Rightarrow> (tracker \<Rightarrow> (error + string \<times> string option \<times> real option) \<times> tracker)
     \<Rightarrow> float_arith \<Rightarrow> real \<Rightarrow> processor \<Rightarrow> event \<Rightarrow> tracker
     \<Rightarrow> error \<times> tracker + loop_state \<times> nat" where
  "handle_message apply_to run sclock clock predict F now P user_event t =
     (case update_tracker_session apply_to run sclock F now P t of
        (Some e, t1) \<Rightarrow> Inl (e, t1)
      | (None, t1) \<Rightarrow>
          Inr (predict_and_execute_next_action apply_to run clock predict P
                 (update apply_to user_event t1)))"

section \<open>Notions of the specification\<close>

text \<open>One pass through the body of the loop of predictions, and the state of the loop
  after \<open>k\<close> passes from the initial state.\<close>

definition iteration ::
  "(event \<Rightarrow> projection \<Rightarrow> projection) \<Rightarrow> (string \<Rightarrow> tracker \<Rightarrow> run_outcome)
     \<Rightarrow> (nat \<Rightarrow> nat \<Rightarrow> real)
     \<Rightarrow> (tracker \<Rightarrow> (error + string \<times> string option \<times> real option) \<times> tracker)
     \<Rightarrow> loop_state \<Rightarrow> loop_state" where
  "iteration apply_to run clock predict s =
     (case predict (loop_tracker s) of
        (Inl e, t1) \<Rightarrow> s\<lparr>loop_tracker := t1, raised := Some e\<rparr>
      | (Inr (action, policy, confidence), t1) \<Rightarrow>
          (case run_action apply_to run (clock (num_predicted_actions s)) action t1
                  policy confidence of
             (Inl e, t2) \<Rightarrow> s\<lparr>loop_tracker := t2, raised := Some e\<rparr>
           | (Inr continue, t2) \<Rightarrow>
               s\<lparr>loop_tracker := t2, should_predict := continue,
                 num_predicted_actions := Suc (num_predicted_actions s),
                 executed := executed s @ [action]\<rparr>))"

definition state_after ::
  "(event \<Rightarrow> projection \<Rightarrow> projection) \<Rightarrow> (string \<Rightarrow> tracker \<Rightarrow> run_outcome)
     \<Rightarrow> (nat \<Rightarrow> nat \<Rightarrow> real)
     \<Rightarrow> (tracker \<Rightarrow> (error + string \<times> string option \<times> real option) \<times> tracker)
     \<Rightarrow> nat \<Rightarrow> tracker \<Rightarrow> loop_state" where
  "state_after apply_to run clock predict k t =
     (iteration apply_to run clock predict ^^ k) (initial_loop_state t)"

text \<open>The action whose run is asked for in a state of the loop returns a list of events
  (and not \<open>None\<close>), whatever the prediction function predicts there.\<close>

definition run_returns_events ::
  "(string \<Rightarrow> tracker \<Rightarrow> run_outcome)
     \<Rightarrow> (tracker \<Rightarrow> (error + string \<times> string option \<times> real option) \<times> tracker)
     \<Rightarrow> tracker \<Rightarrow> bool" where
  "run_returns_events run predict t =
     (case predict t of
        (Inl e, t1) \<Rightarrow> True
      | (Inr (action, policy, confidence), t1) \<Rightarrow> run action t1 \<noteq> Returns None)"

text \<open>The action that the prediction function returns on a tracker, \<open>None\<close> when it
  raises.\<close>

definition predicted_action ::
  "(tracker \<Rightarrow> (error + string \<times> string option \<times> real option) \<times> tracker) \<Rightarrow> tracker
     \<Rightarrow> string option" where
  "predicted_action predict t =
     (case predict t of (Inl e, t1) \<Rightarrow> None | (Inr (action, policy, confidence), t1) \<Rightarrow> Some action)"

text \<open>A prediction function that never raises and never returns a halting action.\<close>

definition never_halts ::
  "(tracker \<Rightarrow> (error + string \<times> string option \<times> real option) \<times> tracker) \<Rightarrow> bool" where
  "never_halts predict =
     (\<forall>t. \<exists>action. predicted_action predict t = Some action
                   \<and> should_predict_another_action action)"

text \<open>The names of the entities of a message: those of its entities that have one.\<close>

definition message_entity_names :: "user_uttered \<Rightarrow> string set" where
  "message_entity_names m = {n. \<exists>e \<in> set (entities m). map_of e ''entity'' = Some n}"

text \<open>
  An entity is allowed for an intent when it is included, explicitly (it is listed under
  \<open>use_entities\<close>) or by the setting that includes all entities of the domain
  (\<open>use_entities\<close> is \<open>True\<close> or is not given), and is not excluded (listed under
  \<open>ignore_entities\<close>).
\<close>

definition entity_allowed :: "intent_file_properties \<Rightarrow> string list \<Rightarrow> string \<Rightarrow> bool" where
  "entity_allowed p domain_ents n =
     ((case use_entities_key p of
         Some (UseList listed) \<Rightarrow> n \<in> set listed
       | Some UseTrue \<Rightarrow> n \<in> set domain_ents
       | None \<Rightarrow> n \<in> set domain_ents
       | Some UseFalse \<Rightarrow> False
       | Some UseNone \<Rightarrow> False)
      \<and> (case ignore_entities_key p of None \<Rightarrow> True | Some ignored \<Rightarrow> n \<notin> set ignored))"

text \<open>The condition of the specification for starting a session: no event since the last
  restart, or sessions that expire and a last user event for which the time since then,
  in minutes, as the floating point arithmetic computes it at the clock reading \<open>now\<close>,
  exceeds the expiration time.\<close>

definition session_start_due :: "float_arith \<Rightarrow> processor \<Rightarrow> real \<Rightarrow> tracker \<Rightarrow> bool" where
  "session_start_due F P now t =
     (applied_events t = []
      \<or> (session_expiration_time (session_cfg (dom P)) > 0
         \<and> (\<exists>u. get_last_user_uttered t = Some u
                \<and> fl_div F (fl_sub F now (timestamp u)) 60
                    > session_expiration_time (session_cfg (dom P)))))"

text \<open>
  What a field of a rule turn asks of the sub-state of the live turn, case by case: the
  "must be unset" sentinel asks for the field to be missing or empty; another non-empty
  value (a list read as a tuple) asks for the field to be there with that value; an
  empty value asks for nothing.
\<close>

definition field_matches :: "sub_state \<Rightarrow> string \<Rightarrow> pyval \<Rightarrow> bool" where
  "field_matches live key v =
     (if as_tuple v = SHOULD_NOT_BE_SET
      then (case map_of live key of None \<Rightarrow> True | Some x \<Rightarrow> \<not> truthy x)
      else if truthy (as_tuple v) then map_of live key = Some (as_tuple v)
      else True)"

section \<open>Concrete inputs\<close>

definition listen_domain :: domain where
  "listen_domain = \<lparr>action_names = [''action_listen''], domain_entities = [],
     intent_props = Map.empty,
     session_cfg = \<lparr>session_expiration_time = 60, carry_over_slots = True\<rparr>\<rparr>"

definition empty_projection :: projection where
  "empty_projection = \<lparr>latest_message = None, latest_action = Map.empty,
     latest_action_name = None, active_loop_name = None, active_loop_rejected = False,
     followup_action = None, paused = False\<rparr>"

definition followup_tracker :: tracker where
  "followup_tracker = \<lparr>sender_id = ''default'', events = [],
     proj = empty_projection\<lparr>followup_action := Some ''action_gone''\<rparr>\<rparr>"

text \<open>
  A domain with three entities and two intents: \<open>greet\<close> lists \<open>city\<close> and \<open>name\<close> as its
  entities and ignores \<open>name\<close>; \<open>bye\<close> uses all entities and ignores \<open>name\<close>. A message of
  each intent, with the three entities of the domain; the first has an item without a
  name as well, the second an entity \<open>zip\<close> that the domain does not have.
\<close>

definition greet_file_properties :: intent_file_properties where
  "greet_file_properties =
     \<lparr>use_entities_key = Some (UseList [''city'', ''name'']),
      ignore_entities_key = Some [''name'']\<rparr>"

definition bye_file_properties :: intent_file_properties where
  "bye_file_properties =
     \<lparr>use_entities_key = Some UseTrue, ignore_entities_key = Some [''name'']\<rparr>"

definition greet_domain :: domain where
  "greet_domain = \<lparr>action_names = [''action_listen''],
     domain_entities = [''city'', ''name'', ''time''],
     intent_props =
       [''greet'' \<mapsto>
          transform_intent_properties_for_internal_use greet_file_properties
            [''city'', ''name'', ''time''],
        ''bye'' \<mapsto>
          transform_intent_properties_for_internal_use bye_file_properties
            [''city'', ''name'', ''time'']],
     session_cfg = \<lparr>session_expiration_time = 60, carry_over_slots = True\<rparr>\<rparr>"

definition greet_message :: user_uttered where
  "greet_message = \<lparr>message_text = Some ''hello'', intent_name = Some ''greet'',
     entities = [[(''entity'', ''city''), (''value'', ''Rome'')],
                 [(''entity'', ''name''), (''value'', ''Ann'')],
                 [(''entity'', ''time''), (''value'', ''noon'')],
                 [(''value'', ''42'')]]\<rparr>"

definition bye_message :: user_uttered where
  "bye_message = \<lparr>message_text = Some ''goodbye'', intent_name = Some ''bye'',
     entities = [[(''entity'', ''city''), (''value'', ''Rome'')],
                 [(''entity'', ''name''), (''value'', ''Ann'')],
                 [(''entity'', ''time''), (''value'', ''noon'')],
                 [(''entity'', ''zip''), (''value'', ''00100'')]]\<rparr>"

definition greet_tracker :: tracker where
  "greet_tracker = \<lparr>sender_id = ''default'', events = [],
     proj = empty_projection\<lparr>latest_message := Some greet_message\<rparr>\<rparr>"

definition bye_tracker :: tracker where
  "bye_tracker = \<lparr>sender_id = ''default'', events = [],
     proj = empty_projection\<lparr>latest_message := Some bye_message\<rparr>\<rparr>"

text \<open>A folding rule that leaves the projection as it is, two prediction functions that
  return the same action on every tracker, an action runner whose actions return no
  events and one whose actions return \<open>None\<close>, a processor with a bound of two
  predictions and a registered callback, and two trackers, the second of them paused
  after a message with the intent \<open>greet\<close>. The clock of the examples reads \<open>10 n + k\<close> at
  reading \<open>k\<close> of iteration \<open>n\<close>.\<close>

definition identity_fold :: "event \<Rightarrow> projection \<Rightarrow> projection" where
  "identity_fold e p = p"

definition greet_predict ::
  "tracker \<Rightarrow> (error + string \<times> string option \<times> real option) \<times> tracker" where
  "greet_predict t = (Inr (''utter_greet'', Some ''policy_0_RulePolicy'', Some 1), t)"

definition listen_predict ::
  "tracker \<Rightarrow> (error + string \<times> string option \<times> real option) \<times> tracker" where
  "listen_predict t = (Inr (''action_listen'', Some ''policy_0_RulePolicy'', Some 1), t)"

definition no_events_run :: "string \<Rightarrow> tracker \<Rightarrow> run_outcome" where
  "no_events_run a t = Returns (Some [])"

definition none_run :: "string \<Rightarrow> tracker \<Rightarrow> run_outcome" where
  "none_run a t = Returns None"

definition loop_clock :: "nat \<Rightarrow> nat \<Rightarrow> real" where
  "loop_clock n k = real (10 * n + k)"

definition breaker_processor :: processor where
  "breaker_processor = \<lparr>dom = listen_domain, max_number_of_predictions = 2, on_circuit_break = True\<rparr>"

definition fresh_tracker :: tracker where
  "fresh_tracker = \<lparr>sender_id = ''default'', events = [], proj = empty_projection\<rparr>"

definition paused_tracker :: tracker where
  "paused_tracker = \<lparr>sender_id = ''default'', events = [],
     proj = empty_projection\<lparr>latest_message := Some greet_message, paused := True\<rparr>\<rparr>"

text \<open>A domain whose sessions expire after one minute, a tracker whose only event is a
  user message at time 0, a runner whose session start action returns the event
  \<open>SessionStarted\<close>, a clock that reads 120 seconds and more, and the subtraction and
  division of the reals, which are those of the floating point numbers on the numbers of
  this example (120 - 0 and 120 / 60 are exact).\<close>

definition session_processor :: processor where
  "session_processor =
     \<lparr>dom = \<lparr>action_names = [''action_listen'', ''action_session_start'', ''utter_greet''],
             domain_entities = [], intent_props = Map.empty,
             session_cfg = \<lparr>session_expiration_time = 1, carry_over_slots = True\<rparr>\<rparr>,
      max_number_of_predictions = 10, on_circuit_break = False\<rparr>"

definition old_message_tracker :: tracker where
  "old_message_tracker = \<lparr>sender_id = ''default'',
     events = [\<lparr>timestamp = 0, kind = UserUttered greet_message\<rparr>],
     proj = empty_projection\<lparr>latest_message := Some greet_message\<rparr>\<rparr>"

definition exact_arith :: float_arith where
  "exact_arith = \<lparr>fl_sub = (\<lambda>x y. x - y), fl_div = (\<lambda>x y. x / y)\<rparr>"

definition session_clock :: "nat \<Rightarrow> real" where
  "session_clock k = 120 + real k"

definition session_run :: "string \<Rightarrow> tracker \<Rightarrow> run_outcome" where
  "session_run a t =
     (if a = ''action_session_start'' then Returns (Some [\<lparr>timestamp = 0, kind = SessionStarted\<rparr>])
      else Returns (Some []))"

text \<open>A rule turn that wants the slot \<open>city\<close> unset, a live turn without that slot and
  one with it.\<close>

definition city_unset_rule :: state where
  "city_unset_rule = [(''slots'', [(''city'', SHOULD_NOT_BE_SET)])]"

definition live_without_city :: state where
  "live_without_city =
     [(''user'', [(''intent'', VText ''greet'')]),
      (''slots'', [(''name'', VTuple [ANum 1])]),
      (''prev_action'', [(''action_name'', VText ''action_listen'')])]"

definition live_with_city :: state where
  "live_with_city =
     [(''user'', [(''intent'', VText ''greet'')]),
      (''slots'', [(''city'', VTuple [ANum 1]), (''name'', VTuple [ANum 1])]),
      (''prev_action'', [(''action_name'', VText ''action_listen'')])]"

text \<open>A way to turn an action name into probabilities: one at the index of the action.\<close>

definition one_hot_result :: "string \<Rightarrow> tracker \<Rightarrow> domain \<Rightarrow> error + real list" where
  "one_hot_result a t d =
     (case index_for_action d a of
        Inl e \<Rightarrow> Inl e
      | Inr None \<Rightarrow> Inl TypeError
      | Inr (Some i) \<Rightarrow> Inr ((replicate (num_actions d) 0)[i := 1]))"

text \<open>A domain with a form, a rule policy without rules, and trackers in which the form
  is active: after the listen action, and after the form's own action.\<close>

definition form_domain :: domain where
  "form_domain = \<lparr>action_names = [''action_listen'', ''action_default_fallback'', ''form_a''],
     domain_entities = [], intent_props = Map.empty,
     session_cfg = \<lparr>session_expiration_time = 60, carry_over_slots = True\<rparr>\<rparr>"

definition no_rules_policy :: rule_policy where
  "no_rules_policy = \<lparr>rules = [], rules_for_loop_unhappy_path = [],
     core_fallback_threshold = 3 / 10, fallback_action_name = ''action_default_fallback'',
     enable_fallback_prediction = True\<rparr>"

definition form_after_listen :: tracker where
  "form_after_listen = \<lparr>sender_id = ''default'', events = [],
     proj = \<lparr>latest_message = Some greet_message,
             latest_action = [''action_name'' \<mapsto> ''action_listen''],
             latest_action_name = Some ''action_listen'',
             active_loop_name = Some ''form_a'', active_loop_rejected = False,
             followup_action = None, paused = False\<rparr>\<rparr>"

definition form_after_form :: tracker where
  "form_after_form = \<lparr>sender_id = ''default'', events = [],
     proj = \<lparr>latest_message = Some greet_message,
             latest_action = [''action_name'' \<mapsto> ''form_a''],
             latest_action_name = Some ''form_a'',
             active_loop_name = Some ''form_a'', active_loop_rejected = False,
             followup_action = None, paused = False\<rparr>\<rparr>"

text \<open>
  Rule keys as \<open>json.dumps\<close> writes them, and \<open>json.loads\<close> on these keys. Two rules of
  equal length on the slots \<open>a\<close> and \<open>b\<close>, a live turn that has both slots, and a second
  set constructor, whose iteration order puts the key of the second rule first.
\<close>

definition key_a :: string where
  \<open>key_a = ''[{"slots": {"a": [1.0]}}]''\<close>

definition key_b :: string where
  \<open>key_b = ''[{"slots": {"b": [1.0]}}]''\<close>

definition key_loop :: string where
  \<open>key_loop = ''[{"active_loop": {"name": "form_a"}}]''\<close>

definition key_chitchat :: string where
  \<open>key_chitchat = ''[{"prev_action": {"action_name": "utter_chitchat"}}]''\<close>

definition key_form_listen :: string where
  \<open>key_form_listen =
     ''[{"active_loop": {"name": "form_a"}, "prev_action": {"action_name": "action_listen"}}]''\<close>

definition json_loads :: "string \<Rightarrow> state list" where
  "json_loads k =
     (if k = key_a then [[(''slots'', [(''a'', VList [ANum 1])])]]
      else if k = key_b then [[(''slots'', [(''b'', VList [ANum 1])])]]
      else if k = key_loop then [[(''active_loop'', [(''name'', VText ''form_a'')])]]
      else if k = key_chitchat
      then [[(''prev_action'', [(''action_name'', VText ''utter_chitchat'')])]]
      else if k = key_form_listen
      then [[(''active_loop'', [(''name'', VText ''form_a'')]),
             (''prev_action'', [(''action_name'', VText ''action_listen'')])]]
      else [])"

definition b_first_set :: "string list \<Rightarrow> string list" where
  "b_first_set xs = filter (\<lambda>k. k = key_b) (remdups xs) @ filter (\<lambda>k. k \<noteq> key_b) (remdups xs)"

definition tie_policy :: rule_policy where
  "tie_policy = \<lparr>rules = [(key_a, ''utter_a''), (key_b, ''utter_b'')],
     rules_for_loop_unhappy_path = [],
     core_fallback_threshold = 3 / 10, fallback_action_name = ''action_default_fallback'',
     enable_fallback_prediction = True\<rparr>"

definition tie_states :: "state list" where
  "tie_states =
     [[(''user'', [(''intent'', VText ''greet'')]),
       (''slots'', [(''a'', VTuple [ANum 1]), (''b'', VTuple [ANum 1])]),
       (''prev_action'', [(''action_name'', VText ''action_listen'')])]]"

text \<open>A rule inside the form \<open>form_a\<close> and a longer, general rule that predicts the listen
  action after \<open>utter_chitchat\<close>; a history and a tracker in which the form is active and
  rejected.\<close>

definition chitchat_policy :: rule_policy where
  "chitchat_policy = \<lparr>rules = [(key_loop, ''utter_ask''), (key_chitchat, ''action_listen'')],
     rules_for_loop_unhappy_path = [],
     core_fallback_threshold = 3 / 10, fallback_action_name = ''action_default_fallback'',
     enable_fallback_prediction = True\<rparr>"

definition chitchat_states :: "state list" where
  "chitchat_states =
     [[(''prev_action'', [(''action_name'', VText ''utter_chitchat'')]),
       (''active_loop'', [(''name'', VText ''form_a'')])]]"

definition rejected_form_tracker :: tracker where
  "rejected_form_tracker = \<lparr>sender_id = ''default'', events = [],
     proj = \<lparr>latest_message = Some greet_message,
             latest_action = [''action_name'' \<mapsto> ''action_listen''],
             latest_action_name = Some ''action_listen'',
             active_loop_name = Some ''form_a'', active_loop_rejected = True,
             followup_action = None, paused = False\<rparr>\<rparr>"

text \<open>The same short rule and a longer rule, itself inside the form, that predicts the
  listen action after the listen action.\<close>

definition loop_rules_policy :: rule_policy where
  "loop_rules_policy =
     \<lparr>rules = [(key_loop, ''utter_ask''), (key_form_listen, ''action_listen'')],
      rules_for_loop_unhappy_path = [],
      core_fallback_threshold = 3 / 10, fallback_action_name = ''action_default_fallback'',
      enable_fallback_prediction = True\<rparr>"

text \<open>A policy whose lookup for the unhappy path of loops asks not to validate the loop
  after the listen action inside \<open>form_a\<close>, and a history that ends in such a turn.\<close>

definition unhappy_policy :: rule_policy where
  "unhappy_policy = \<lparr>rules = [],
     rules_for_loop_unhappy_path = [(key_form_listen, ''do_not_validate_loop'')],
     core_fallback_threshold = 3 / 10, fallback_action_name = ''action_default_fallback'',
     enable_fallback_prediction = True\<rparr>"

definition unhappy_states :: "state list" where
  "unhappy_states =
     [[(''user'', [(''intent'', VText ''greet'')]),
       (''prev_action'', [(''action_name'', VText ''action_listen'')]),
       (''active_loop'', [(''name'', VText ''form_a'')])]]"

section \<open>Auxiliary facts\<close>

lemma py_index_None: "py_index xs a = None \<longleftrightarrow> a \<notin> set xs"
  by (induction xs) auto

lemma index_for_action_unknown:
  "a \<notin> set (action_names d) \<Longrightarrow> index_for_action d a = Inl (NameError a)"
  by (simp add: index_for_action_def py_index_None[THEN iffD2])

lemma py_set_ok_remdups: "py_set_ok remdups"
  by (simp add: py_set_ok_def)

lemma item_mismatch_iff: "item_mismatch live key v \<longleftrightarrow> \<not> field_matches live key v"
proof (cases "as_tuple v = SHOULD_NOT_BE_SET")
  case True
  then show ?thesis
    by (auto simp: item_mismatch_def field_matches_def py_get_def Let_def split: option.splits)
next
  case False
  show ?thesis
  proof (cases "truthy (as_tuple v)")
    case True
    then have "as_tuple v \<noteq> VNone" by auto
    then show ?thesis
      using False True
      by (auto simp: item_mismatch_def field_matches_def py_get_def Let_def split: option.splits)
  next
    case f: False
    then show ?thesis
      using False by (simp add: item_mismatch_def field_matches_def Let_def)
  qed
qed

lemma rule_default_predictions_Inr:
  assumes "enable_fallback_prediction policy \<longrightarrow> fallback_action_name policy \<in> set (action_names d)"
  shows "\<exists>res. rule_default_predictions policy d = Inr res"
proof (cases "enable_fallback_prediction policy")
  case True
  then have "py_index (action_names d) (fallback_action_name policy) \<noteq> None"
    using assms py_index_None [of "action_names d" "fallback_action_name policy"] by blast
  then obtain i where i: "py_index (action_names d) (fallback_action_name policy) = Some i"
    by blast
  have "index_for_action d (fallback_action_name policy) = Inr (Some i)"
    by (simp add: index_for_action_def i)
  then have "rule_default_predictions policy d
               = Inr ((default_predictions d)[i := core_fallback_threshold policy])"
    using True by (simp add: rule_default_predictions_def)
  then show ?thesis by blast
next
  case False
  then have "rule_default_predictions policy d = Inr (default_predictions d)"
    by (simp add: rule_default_predictions_def)
  then show ?thesis by blast
qed

lemma no_default_form_after_listen: "find_action_from_default_actions form_after_listen = None"
  by (simp add: find_action_from_default_actions_def form_after_listen_def greet_message_def
      DEFAULT_ACTION_MAPPINGS_def USER_INTENT_RESTART_def USER_INTENT_BACK_def
      USER_INTENT_SESSION_START_def)

lemma no_default_form_after_form: "find_action_from_default_actions form_after_form = None"
  by (simp add: find_action_from_default_actions_def form_after_form_def ACTION_LISTEN_NAME_def)

lemma max_len_from_cases:
  "(max_len_from b xs = b \<and> (\<forall>x\<in>set xs. length x \<le> length b))
   \<or> (\<exists>pre post. xs = pre @ max_len_from b xs # post
         \<and> length b < length (max_len_from b xs)
         \<and> (\<forall>k\<in>set pre. length k < length (max_len_from b xs))
         \<and> (\<forall>k\<in>set post. length k \<le> length (max_len_from b xs)))"
proof (induction xs arbitrary: b)
  case Nil
  show ?case by simp
next
  case (Cons x xs)
  show ?case
  proof (cases "length x > length b")
    case True
    then have eq: "max_len_from b (x # xs) = max_len_from x xs" by simp
    from Cons.IH [of x] show ?thesis
    proof
      assume a: "max_len_from x xs = x \<and> (\<forall>y\<in>set xs. length y \<le> length x)"
      then have "x # xs = [] @ max_len_from b (x # xs) # xs"
        using True by simp
      then show ?thesis
        using a True by (intro disjI2 exI [of _ "[]"] exI [of _ xs]) simp
    next
      assume "\<exists>pre post. xs = pre @ max_len_from x xs # post
         \<and> length x < length (max_len_from x xs)
         \<and> (\<forall>k\<in>set pre. length k < length (max_len_from x xs))
         \<and> (\<forall>k\<in>set post. length k \<le> length (max_len_from x xs))"
      then obtain pre post where p: "xs = pre @ max_len_from x xs # post"
          "length x < length (max_len_from x xs)"
          "\<forall>k\<in>set pre. length k < length (max_len_from x xs)"
          "\<forall>k\<in>set post. length k \<le> length (max_len_from x xs)"
        by blast
      have "x # xs = (x # pre) @ max_len_from b (x # xs) # post"
        using p(1) True by simp
      then show ?thesis
        using p True by (intro disjI2 exI [of _ "x # pre"] exI [of _ post]) auto
    qed
  next
    case False
    then have eq: "max_len_from b (x # xs) = max_len_from b xs" by simp
    from Cons.IH [of b] show ?thesis
    proof
      assume "max_len_from b xs = b \<and> (\<forall>y\<in>set xs. length y \<le> length b)"
      then show ?thesis using False by auto
    next
      assume "\<exists>pre post. xs = pre @ max_len_from b xs # post
         \<and> length b < length (max_len_from b xs)
         \<and> (\<forall>k\<in>set pre. length k < length (max_len_from b xs))
         \<and> (\<forall>k\<in>set post. length k \<le> length (max_len_from b xs))"
      then obtain pre post where p: "xs = pre @ max_len_from b xs # post"
          "length b < length (max_len_from b xs)"
          "\<forall>k\<in>set pre. length k < length (max_len_from b xs)"
          "\<forall>k\<in>set post. length k \<le> length (max_len_from b xs)"
        by blast
      have "x # xs = (x # pre) @ max_len_from b (x # xs) # post"
        using p(1) False by simp
      then show ?thesis
        using p False by (intro disjI2 exI [of _ "x # pre"] exI [of _ post]) auto
    qed
  qed
qed

lemma max_len_first_longest:
  assumes "xs \<noteq> []"
  shows "\<exists>pre post. xs = pre @ max_len xs # post
           \<and> (\<forall>k\<in>set pre. length k < length (max_len xs))
           \<and> (\<forall>k\<in>set post. length k \<le> length (max_len xs))"
proof -
  obtain x rest where xs: "xs = x # rest"
    using assms by (cases xs) auto
  then have m: "max_len xs = max_len_from x rest"
    by (simp add: max_len_def)
  from max_len_from_cases [of x rest] show ?thesis
  proof
    assume "max_len_from x rest = x \<and> (\<forall>y\<in>set rest. length y \<le> length x)"
    then show ?thesis
      using xs m by (intro exI [of _ "[]"] exI [of _ rest]) simp
  next
    assume "\<exists>pre post. rest = pre @ max_len_from x rest # post
         \<and> length x < length (max_len_from x rest)
         \<and> (\<forall>k\<in>set pre. length k < length (max_len_from x rest))
         \<and> (\<forall>k\<in>set post. length k \<le> length (max_len_from x rest))"
    then obtain pre post where p: "rest = pre @ max_len_from x rest # post"
        "length x < length (max_len_from x rest)"
        "\<forall>k\<in>set pre. length k < length (max_len_from x rest)"
        "\<forall>k\<in>set post. length k \<le> length (max_len_from x rest)"
      by blast
    have "xs = (x # pre) @ max_len xs # post"
      using xs p(1) m by simp
    then show ?thesis
      using p m by (intro exI [of _ "x # pre"] exI [of _ post]) auto
  qed
qed

lemma set_filter_possible_keys:
  assumes "py_set_ok py_set"
  shows "set (filter_possible_keys py_set rule_key_to_state i ss pk)
           = {k \<in> set pk. \<forall>j<length ss. is_rule_applicable rule_key_to_state k (i + j) (ss ! j)}"
proof (induction ss arbitrary: i pk)
  case Nil
  show ?case by simp
next
  case (Cons s ss)
  have "set (py_set (filter (\<lambda>key. is_rule_applicable rule_key_to_state key i s) pk))
          = {k \<in> set pk. is_rule_applicable rule_key_to_state k i s}"
    using assms by (simp add: py_set_ok_def)
  then show ?case
    using Cons.IH [of "Suc i"]
    by (auto simp: less_Suc_eq_0_disj)
qed

lemma set_get_possible_keys:
  assumes "py_set_ok py_set"
  shows "set (get_possible_keys py_set rule_key_to_state lookup states)
           = {k \<in> fst ` set lookup.
                \<forall>i<length states. is_rule_applicable rule_key_to_state k i (rev states ! i)}"
  using assms set_filter_possible_keys [OF assms, of rule_key_to_state 0 "rev states"]
  by (simp add: get_possible_keys_def py_set_ok_def)

lemma set_used_entities:
  "set (used_entities (transform_intent_properties_for_internal_use p ents))
     = {n. entity_allowed p ents n}"
proof -
  have fin: "finite (set xs - set ys)" for xs ys :: "string list"
    by simp
  show ?thesis
  proof (cases "use_entities_key p")
    case None
    then show ?thesis
      by (auto simp: transform_intent_properties_for_internal_use_def entity_allowed_def Let_def
          split: option.splits)
  next
    case (Some u)
    then show ?thesis
      by (cases u)
         (auto simp: transform_intent_properties_for_internal_use_def entity_allowed_def Let_def
            split: option.splits)
  qed
qed

lemma set_map_filter_entity:
  "set (List.map_filter (\<lambda>entity. map_of entity ''entity'') es)
     = {n. \<exists>e \<in> set es. map_of e ''entity'' = Some n}"
  by (induction es) (auto simp: List.map_filter_simps split: option.splits)

lemma set_get_featurized_entities:
  assumes "py_set_ok py_set"
    and "intent_config d (intent_name m)
           = Some (transform_intent_properties_for_internal_use p (domain_entities d))"
  shows "set (get_featurized_entities py_set d m)
           = {n \<in> message_entity_names m. entity_allowed p (domain_entities d) n}"
  using assms
  by (auto simp: get_featurized_entities_def py_set_ok_def Let_def set_used_entities
      set_map_filter_entity message_entity_names_def)

lemma retained_entities_user_sub_state:
  assumes "latest_message (proj t) = Some m" and "\<not> is_empty m"
  shows "retained_entities (get_user_sub_state is_empty as_sub_state py_set d t)
           = set (get_featurized_entities py_set d m)"
  using assms
  by (auto simp: get_user_sub_state_def retained_entities_def Let_def update_conv' delete_conv'
        map_of_eq_None_iff
      split: option.splits pyval.splits)

lemma example_message_entity_names:
  "message_entity_names greet_message = {''city'', ''name'', ''time''}"
  "message_entity_names bye_message = {''city'', ''name'', ''time'', ''zip''}"
  by (auto simp: message_entity_names_def greet_message_def bye_message_def)

lemma example_entity_allowed:
  "entity_allowed greet_file_properties ents n \<longleftrightarrow> n = ''city''"
  "entity_allowed bye_file_properties [''city'', ''name'', ''time''] n
     \<longleftrightarrow> n = ''city'' \<or> n = ''time''"
  by (auto simp: entity_allowed_def greet_file_properties_def bye_file_properties_def)

lemma events_update: "events (update apply_to e t) = events t @ [e]"
  by (simp add: update_def)

lemma events_log_events:
  "events (log_events apply_to clock k evs t)
     = events t @ map (\<lambda>(j, e). e\<lparr>timestamp := clock j\<rparr>) (enumerate k evs)"
  by (induction evs arbitrary: k t) (simp_all add: events_update)

lemma events_log_action_on_tracker:
  "events (log_action_on_tracker apply_to clock t (Some a) evs policy confidence)
     = events t @ \<lparr>timestamp = clock 0, kind = ActionExecuted a policy confidence\<rparr>
         # map (\<lambda>(j, e). e\<lparr>timestamp := clock j\<rparr>)
             (enumerate 1 (case evs of None \<Rightarrow> [] | Some es \<Rightarrow> es))"
  by (simp add: log_action_on_tracker_def events_log_events events_update Let_def)

lemma action_loop_exit_paused:
  assumes "should_predict s" and "should_handle_message (loop_tracker s) \<noteq> Inr True"
  shows "action_loop apply_to run clock predict P s
           = (case should_handle_message (loop_tracker s) of
                Inl e \<Rightarrow> s\<lparr>raised := Some e\<rparr> | Inr b \<Rightarrow> s)"
  using assms by (subst action_loop.simps) simp

lemma run_action_returns_events:
  assumes "run action t \<noteq> Returns None"
  shows "fst (run_action apply_to run clock action t policy confidence)
           = Inr (should_predict_another_action action)"
proof (cases "run action t")
  case (Returns evs)
  then obtain es where "evs = Some es"
    using assms by (cases evs) auto
  then show ?thesis
    using Returns by (simp add: run_action_def)
next
  case Rejects
  then show ?thesis by (simp add: run_action_def)
next
  case Fails
  then show ?thesis by (simp add: run_action_def)
qed

lemma iteration_Inr:
  assumes "predict (loop_tracker s) = (Inr (a, p, c), t1)" and "run a t1 \<noteq> Returns None"
  shows "iteration apply_to run clock predict s
           = s\<lparr>loop_tracker := snd (run_action apply_to run (clock (num_predicted_actions s)) a t1 p c),
                should_predict := should_predict_another_action a,
                num_predicted_actions := Suc (num_predicted_actions s),
                executed := executed s @ [a]\<rparr>"
proof -
  obtain r t2 where r: "run_action apply_to run (clock (num_predicted_actions s)) a t1 p c = (r, t2)"
    by (cases "run_action apply_to run (clock (num_predicted_actions s)) a t1 p c")
  have "fst (run_action apply_to run (clock (num_predicted_actions s)) a t1 p c)
          = Inr (should_predict_another_action a)"
    by (rule run_action_returns_events) (rule assms(2))
  then have "r = Inr (should_predict_another_action a)"
    using r by simp
  then show ?thesis
    using assms(1) r by (simp add: iteration_def)
qed

lemma predicted_action_Some:
  "predicted_action predict t = Some a \<Longrightarrow> \<exists>p c t1. predict t = (Inr (a, p, c), t1)"
  by (auto simp: predicted_action_def split: prod.splits sum.splits)

lemma iteration_fields:
  assumes "predicted_action predict (loop_tracker s) = Some a"
    and "run_returns_events run predict (loop_tracker s)"
  shows "should_predict (iteration apply_to run clock predict s) = should_predict_another_action a"
    and "num_predicted_actions (iteration apply_to run clock predict s)
           = Suc (num_predicted_actions s)"
    and "raised (iteration apply_to run clock predict s) = raised s"
    and "executed (iteration apply_to run clock predict s) = executed s @ [a]"
proof -
  obtain p c t1 where pr: "predict (loop_tracker s) = (Inr (a, p, c), t1)"
    using predicted_action_Some [OF assms(1)] by blast
  have nn: "run a t1 \<noteq> Returns None"
    using assms(2) pr by (simp add: run_returns_events_def)
  have it: "iteration apply_to run clock predict s
           = s\<lparr>loop_tracker := snd (run_action apply_to run (clock (num_predicted_actions s)) a t1 p c),
                should_predict := should_predict_another_action a,
                num_predicted_actions := Suc (num_predicted_actions s),
                executed := executed s @ [a]\<rparr>"
    using pr nn by (rule iteration_Inr)
  show "should_predict (iteration apply_to run clock predict s) = should_predict_another_action a"
    by (simp add: it)
  show "num_predicted_actions (iteration apply_to run clock predict s)
           = Suc (num_predicted_actions s)"
    by (simp add: it)
  show "raised (iteration apply_to run clock predict s) = raised s"
    by (simp add: it)
  show "executed (iteration apply_to run clock predict s) = executed s @ [a]"
    by (simp add: it)
qed

lemma action_loop_step:
  assumes "should_predict s" and "should_handle_message (loop_tracker s) = Inr True"
    and "int (num_predicted_actions s) < max_number_of_predictions P"
    and "predicted_action predict (loop_tracker s) = Some a"
    and "run_returns_events run predict (loop_tracker s)"
  shows "action_loop apply_to run clock predict P s
           = action_loop apply_to run clock predict P (iteration apply_to run clock predict s)"
proof -
  obtain p c t1 where pr: "predict (loop_tracker s) = (Inr (a, p, c), t1)"
    using predicted_action_Some [OF assms(4)] by blast
  have nn: "run a t1 \<noteq> Returns None"
    using assms(5) pr by (simp add: run_returns_events_def)
  obtain r t2 where r: "run_action apply_to run (clock (num_predicted_actions s)) a t1 p c = (r, t2)"
    by (cases "run_action apply_to run (clock (num_predicted_actions s)) a t1 p c")
  have "fst (run_action apply_to run (clock (num_predicted_actions s)) a t1 p c)
          = Inr (should_predict_another_action a)"
    by (rule run_action_returns_events) (rule nn)
  then have r': "r = Inr (should_predict_another_action a)"
    using r by simp
  show ?thesis
    using assms(1-3) pr r r'
    by (subst action_loop.simps) (simp add: iteration_def)
qed

lemma action_loop_stop:
  assumes "\<not> should_predict s
           \<or> should_handle_message (loop_tracker s) = Inr False
           \<or> (should_handle_message (loop_tracker s) = Inr True
               \<and> \<not> int (num_predicted_actions s) < max_number_of_predictions P)"
  shows "action_loop apply_to run clock predict P s = s"
  using assms by (subst action_loop.simps) auto

lemma state_after_Suc:
  "state_after apply_to run clock predict (Suc k) t
     = iteration apply_to run clock predict (state_after apply_to run clock predict k t)"
  by (simp add: state_after_def)

lemma loop_runs:
  assumes "max_number_of_predictions P = int N" and "k \<le> N"
    and "\<forall>j<k. should_handle_message (loop_tracker (state_after apply_to run clock predict j t))
                  = Inr True
              \<and> run_returns_events run predict
                   (loop_tracker (state_after apply_to run clock predict j t))
              \<and> (\<exists>a. predicted_action predict
                         (loop_tracker (state_after apply_to run clock predict j t)) = Some a
                     \<and> should_predict_another_action a)"
  shows "action_loop apply_to run clock predict P (initial_loop_state t)
           = action_loop apply_to run clock predict P (state_after apply_to run clock predict k t)
       \<and> should_predict (state_after apply_to run clock predict k t)
       \<and> num_predicted_actions (state_after apply_to run clock predict k t) = k
       \<and> raised (state_after apply_to run clock predict k t) = None
       \<and> length (executed (state_after apply_to run clock predict k t)) = k"
  using assms(2,3)
proof (induction k)
  case 0
  show ?case by (simp add: state_after_def initial_loop_state_def)
next
  case (Suc k)
  let ?s = "state_after apply_to run clock predict k t"
  have ih: "action_loop apply_to run clock predict P (initial_loop_state t)
              = action_loop apply_to run clock predict P ?s"
      "should_predict ?s" "num_predicted_actions ?s = k" "raised ?s = None"
      "length (executed ?s) = k"
    using Suc by auto
  from Suc.prems obtain a where h: "should_handle_message (loop_tracker ?s) = Inr True"
      and rr: "run_returns_events run predict (loop_tracker ?s)"
      and a: "predicted_action predict (loop_tracker ?s) = Some a"
      "should_predict_another_action a"
    by auto
  have lt: "int (num_predicted_actions ?s) < max_number_of_predictions P"
    using ih(3) Suc.prems(1) assms(1) by simp
  have "action_loop apply_to run clock predict P ?s
          = action_loop apply_to run clock predict P (iteration apply_to run clock predict ?s)"
    by (rule action_loop_step [OF ih(2) h lt a(1) rr])
  then show ?case
    using ih a iteration_fields [OF a(1) rr, of apply_to clock]
    by (simp add: state_after_Suc)
qed

lemma never_halts_greet_predict: "never_halts greet_predict"
  by (simp add: never_halts_def predicted_action_def greet_predict_def
      should_predict_another_action_def ACTION_LISTEN_NAME_def ACTION_SESSION_START_NAME_def)

lemma proj_update_identity_fold: "proj (update identity_fold e t) = proj t"
  by (simp add: update_def identity_fold_def)

lemma proj_log_events_identity_fold:
  "proj (log_events identity_fold clock k evs t) = proj t"
  by (induction evs arbitrary: k t) (simp_all add: proj_update_identity_fold)

lemma proj_run_action_identity_fold:
  "proj (snd (run_action identity_fold run clock a t p c)) = proj t"
  by (simp add: run_action_def log_action_on_tracker_def proj_update_identity_fold
      proj_log_events_identity_fold Let_def split: run_outcome.splits option.splits)

lemma proj_state_after_greet:
  "proj (loop_tracker (state_after identity_fold no_events_run clock greet_predict k t)) = proj t"
proof (induction k)
  case 0
  show ?case by (simp add: state_after_def initial_loop_state_def)
next
  case (Suc k)
  let ?s = "state_after identity_fold no_events_run clock greet_predict k t"
  have pr: "greet_predict (loop_tracker ?s)
          = (Inr (''utter_greet'', Some ''policy_0_RulePolicy'', Some 1), loop_tracker ?s)"
    by (simp add: greet_predict_def)
  have nn: "no_events_run ''utter_greet'' (loop_tracker ?s) \<noteq> Returns None"
    by (simp add: no_events_run_def)
  have "iteration identity_fold no_events_run clock greet_predict ?s
          = ?s\<lparr>loop_tracker := snd (run_action identity_fold no_events_run
                  (clock (num_predicted_actions ?s)) ''utter_greet'' (loop_tracker ?s)
                  (Some ''policy_0_RulePolicy'') (Some 1)),
               should_predict := should_predict_another_action ''utter_greet'',
               num_predicted_actions := Suc (num_predicted_actions ?s),
               executed := executed ?s @ [''utter_greet'']\<rparr>"
    using pr nn by (rule iteration_Inr)
  with Suc show ?case
    by (simp add: state_after_Suc proj_run_action_identity_fold)
qed

lemma handled_fresh: "should_handle_message t = Inr True" if "proj t = proj fresh_tracker"
  using that by (simp add: should_handle_message_def fresh_tracker_def empty_projection_def)

lemma run_returns_events_no_events_run: "run_returns_events no_events_run predict t"
  by (simp add: run_returns_events_def no_events_run_def split: prod.splits sum.splits)

lemma has_session_expired_iff:
  "has_session_expired F P now t
     \<longleftrightarrow> (session_expiration_time (session_cfg (dom P)) > 0
          \<and> (\<exists>u. get_last_user_uttered t = Some u
                 \<and> fl_div F (fl_sub F now (timestamp u)) 60
                     > session_expiration_time (session_cfg (dom P))))"
  by (auto simp: has_session_expired_def are_sessions_enabled_def Let_def split: option.splits)

lemma applied_old:
  "applied_events old_message_tracker = [\<lparr>timestamp = 0, kind = UserUttered greet_message\<rparr>]"
  by (simp add: applied_events_def old_message_tracker_def)

lemma due_old: "session_start_due exact_arith session_processor 120 old_message_tracker"
  by (simp add: session_start_due_def applied_old get_last_user_uttered_def
      session_processor_def exact_arith_def)

lemma not_due_old: "\<not> session_start_due exact_arith session_processor 30 old_message_tracker"
  by (simp add: session_start_due_def applied_old get_last_user_uttered_def
      session_processor_def exact_arith_def)

lemma update_tracker_session_cases:
  assumes "ACTION_SESSION_START_NAME \<in> set (action_names (dom P))"
  shows "update_tracker_session apply_to run clock F now P t
           = (if session_start_due F P now t
              then (case fst (run_action apply_to run clock ACTION_SESSION_START_NAME t None None) of
                      Inl e \<Rightarrow> Some e | Inr continue \<Rightarrow> None,
                    snd (run_action apply_to run clock ACTION_SESSION_START_NAME t None None))
              else (None, t))"
proof (cases "session_start_due F P now t")
  case True
  then have "applied_events t = [] \<or> has_session_expired F P now t"
    by (simp add: session_start_due_def has_session_expired_iff)
  then show ?thesis
    using assms True
    by (simp add: update_tracker_session_def action_for_name_def split: prod.splits sum.splits)
next
  case False
  then have "\<not> (applied_events t = [] \<or> has_session_expired F P now t)"
    by (simp add: session_start_due_def has_session_expired_iff)
  then show ?thesis
    using False by (simp add: update_tracker_session_def)
qed

lemma find_action_from_rules_no_overlay:
  assumes "get_possible_keys py_set rule_key_to_state (rules policy) states \<noteq> []"
    and "truthy_text (active_loop_name (proj t))
         \<and> map_of (rules policy)
              (max_len (get_possible_keys py_set rule_key_to_state (rules policy) states))
             = Some ACTION_LISTEN_NAME
         \<longrightarrow> rule_key_to_state
               (max_len (get_possible_keys py_set rule_key_to_state (rules policy) states)) \<noteq> []
             \<and> truthy (get_active_loop_name (last (rule_key_to_state
                  (max_len (get_possible_keys py_set rule_key_to_state (rules policy) states)))))"
  shows "fst (find_action_from_rules apply_to py_set rule_key_to_state now policy states t)
           = Inr (map_of (rules policy)
                    (max_len (get_possible_keys py_set rule_key_to_state (rules policy) states)))"
proof (cases "truthy_text (active_loop_name (proj t))")
  case False
  then show ?thesis
    using assms(1) by (simp add: find_action_from_rules_def Let_def)
next
  case True
  show ?thesis
  proof (cases "map_of (rules policy)
                  (max_len (get_possible_keys py_set rule_key_to_state (rules policy) states))
                 = Some ACTION_LISTEN_NAME")
    case l: True
    then have "rule_key_to_state
               (max_len (get_possible_keys py_set rule_key_to_state (rules policy) states)) \<noteq> []"
        "truthy (get_active_loop_name (last (rule_key_to_state
            (max_len (get_possible_keys py_set rule_key_to_state (rules policy) states)))))"
      using assms(2) True by blast+
    then show ?thesis
      using True l assms(1) by (simp add: find_action_from_rules_def Let_def)
  next
    case False
    then show ?thesis
      using True assms(1) by (simp add: find_action_from_rules_def Let_def)
  qed
qed

lemma keys_differ:
  "key_a \<noteq> key_b" "key_a \<noteq> key_loop" "key_a \<noteq> key_chitchat" "key_a \<noteq> key_form_listen"
  "key_b \<noteq> key_loop" "key_b \<noteq> key_chitchat" "key_b \<noteq> key_form_listen"
  "key_loop \<noteq> key_chitchat" "key_loop \<noteq> key_form_listen" "key_chitchat \<noteq> key_form_listen"
  by (simp_all add: key_a_def key_b_def key_loop_def key_chitchat_def key_form_listen_def)

lemma json_loads_keys:
  "json_loads key_a = [[(''slots'', [(''a'', VList [ANum 1])])]]"
  "json_loads key_b = [[(''slots'', [(''b'', VList [ANum 1])])]]"
  "json_loads key_loop = [[(''active_loop'', [(''name'', VText ''form_a'')])]]"
  "json_loads key_chitchat = [[(''prev_action'', [(''action_name'', VText ''utter_chitchat'')])]]"
  "json_loads key_form_listen
     = [[(''active_loop'', [(''name'', VText ''form_a'')]),
         (''prev_action'', [(''action_name'', VText ''action_listen'')])]]"
  using keys_differ by (simp_all add: json_loads_def)

lemma tie_rules_applicable:
  "is_rule_applicable json_loads key_a 0 (hd tie_states)"
  "is_rule_applicable json_loads key_b 0 (hd tie_states)"
  by (simp_all add: is_rule_applicable_def json_loads_keys tie_states_def does_rule_match_state_def
      item_mismatch_def py_get_def get_sub_state_def SHOULD_NOT_BE_SET_def)

lemma tie_keys_remdups:
  "get_possible_keys remdups json_loads (rules tie_policy) tie_states = [key_a, key_b]"
  using tie_rules_applicable keys_differ
  by (simp add: get_possible_keys_def tie_policy_def tie_states_def)

lemma py_set_ok_b_first_set: "py_set_ok b_first_set"
  by (auto simp: py_set_ok_def b_first_set_def)

lemma tie_keys_b_first:
  "get_possible_keys b_first_set json_loads (rules tie_policy) tie_states = [key_b, key_a]"
  using tie_rules_applicable keys_differ
  by (simp add: get_possible_keys_def tie_policy_def tie_states_def b_first_set_def)

lemma tie_max_len: "max_len [key_a, key_b] = key_a" "max_len [key_b, key_a] = key_b"
  by (simp_all add: max_len_def key_a_def key_b_def)

lemma tie_actions:
  "map_of (rules tie_policy) key_a = Some ''utter_a''"
  "map_of (rules tie_policy) key_b = Some ''utter_b''"
  using keys_differ by (simp_all add: tie_policy_def)

lemma no_loop_fresh_tracker: "\<not> truthy_text (active_loop_name (proj fresh_tracker))"
  by (simp add: fresh_tracker_def empty_projection_def)

lemma chitchat_applicable:
  "is_rule_applicable json_loads key_loop 0 (hd chitchat_states)"
  "is_rule_applicable json_loads key_chitchat 0 (hd chitchat_states)"
  by (simp_all add: is_rule_applicable_def json_loads_keys chitchat_states_def
      does_rule_match_state_def item_mismatch_def py_get_def get_sub_state_def
      SHOULD_NOT_BE_SET_def)

lemma chitchat_keys:
  "get_possible_keys remdups json_loads (rules chitchat_policy) chitchat_states
     = [key_loop, key_chitchat]"
  "get_possible_keys remdups json_loads (rules_for_loop_unhappy_path chitchat_policy)
     chitchat_states = []"
  using chitchat_applicable keys_differ
  by (simp_all add: get_possible_keys_def chitchat_policy_def chitchat_states_def)

lemma chitchat_max_len:
  "max_len [key_loop, key_chitchat] = key_chitchat" "length key_loop < length key_chitchat"
  by (simp_all add: max_len_def key_loop_def key_chitchat_def)

lemma chitchat_actions:
  "map_of (rules chitchat_policy) key_loop = Some ''utter_ask''"
  "map_of (rules chitchat_policy) key_chitchat = Some ''action_listen''"
  using keys_differ by (simp_all add: chitchat_policy_def)

lemma chitchat_overlay:
  "fst (find_action_from_rules identity_fold remdups json_loads 0 chitchat_policy chitchat_states
          rejected_form_tracker) = Inr (Some ''form_a'')"
proof -
  have 1: "map_of (rules chitchat_policy) key_chitchat = Some ACTION_LISTEN_NAME"
    by (simp add: chitchat_actions ACTION_LISTEN_NAME_def)
  have 2: "\<not> truthy (get_active_loop_name (last (json_loads key_chitchat)))"
    by (simp add: json_loads_keys get_active_loop_name_def get_sub_state_def py_get_def
        ACTIVE_LOOP_def)
  have 3: "active_loop_name (proj rejected_form_tracker) = Some ''form_a''"
    by (simp add: rejected_form_tracker_def)
  have 5: "json_loads key_chitchat \<noteq> []"
    by (simp add: json_loads_keys)
  show ?thesis
    using 1 2 3 5
    by (simp add: find_action_from_rules_def chitchat_keys chitchat_max_len Let_def)
qed

lemma loop_rules_applicable:
  "is_rule_applicable json_loads key_loop 0 (hd unhappy_states)"
  "is_rule_applicable json_loads key_form_listen 0 (hd unhappy_states)"
  by (simp_all add: is_rule_applicable_def json_loads_keys unhappy_states_def
      does_rule_match_state_def item_mismatch_def py_get_def get_sub_state_def
      SHOULD_NOT_BE_SET_def)

lemma loop_rules_keys:
  "get_possible_keys remdups json_loads (rules loop_rules_policy) unhappy_states
     = [key_loop, key_form_listen]"
  using loop_rules_applicable keys_differ
  by (simp add: get_possible_keys_def loop_rules_policy_def unhappy_states_def)

lemma loop_rules_max_len:
  "max_len [key_loop, key_form_listen] = key_form_listen"
  "length key_loop < length key_form_listen"
  by (simp_all add: max_len_def key_loop_def key_form_listen_def)

lemma loop_rules_actions:
  "map_of (rules loop_rules_policy) key_form_listen = Some ''action_listen''"
  using keys_differ by (simp add: loop_rules_policy_def)

lemma loop_rule_names_loop:
  "json_loads key_form_listen \<noteq> []"
  "truthy (get_active_loop_name (last (json_loads key_form_listen)))"
  by (simp_all add: json_loads_keys get_active_loop_name_def get_sub_state_def py_get_def
      ACTIVE_LOOP_def LOOP_NAME_def)

lemma unhappy_keys:
  "get_possible_keys remdups json_loads (rules unhappy_policy) unhappy_states = []"
  "get_possible_keys remdups json_loads (rules_for_loop_unhappy_path unhappy_policy)
     unhappy_states = [key_form_listen]"
  using loop_rules_applicable
  by (simp_all add: get_possible_keys_def unhappy_policy_def unhappy_states_def)

lemma unhappy_rule_appends:
  "find_action_from_rules identity_fold remdups json_loads 5 unhappy_policy unhappy_states
     rejected_form_tracker
   = (Inr None,
      update identity_fold \<lparr>timestamp = 5, kind = FormValidation False\<rparr> rejected_form_tracker)"
proof -
  have 1: "truthy_text (active_loop_name (proj rejected_form_tracker))"
    by (simp add: rejected_form_tracker_def)
  have 2: "map_of (rules_for_loop_unhappy_path unhappy_policy) key_form_listen
             = Some DO_NOT_VALIDATE_LOOP"
    by (simp add: unhappy_policy_def DO_NOT_VALIDATE_LOOP_def)
  show ?thesis
    using 1 2 by (simp add: find_action_from_rules_def unhappy_keys Let_def)
qed

lemma rejected_form_tracker_no_shortcut:
  "find_action_from_default_actions rejected_form_tracker = None"
  "find_action_from_loop_happy_path rejected_form_tracker = None"
  by (simp_all add: find_action_from_default_actions_def find_action_from_loop_happy_path_def
      rejected_form_tracker_def greet_message_def DEFAULT_ACTION_MAPPINGS_def Let_def
      USER_INTENT_SESSION_START_def USER_INTENT_BACK_def USER_INTENT_RESTART_def)

lemma unhappy_default_predictions:
  "\<exists>res. rule_default_predictions unhappy_policy form_domain = Inr res"
  by (rule rule_default_predictions_Inr) (simp add: unhappy_policy_def form_domain_def)

lemma snd_find_action_from_rules:
  "snd (find_action_from_rules apply_to py_set rule_key_to_state now policy states t)
     = (if truthy_text (active_loop_name (proj t))
           \<and> Some DO_NOT_VALIDATE_LOOP
               \<in> set (map (map_of (rules_for_loop_unhappy_path policy))
                      (get_possible_keys py_set rule_key_to_state
                         (rules_for_loop_unhappy_path policy) states))
           \<and> \<not> (get_possible_keys py_set rule_key_to_state (rules policy) states \<noteq> []
                \<and> map_of (rules policy)
                     (max_len (get_possible_keys py_set rule_key_to_state (rules policy) states))
                    = Some ACTION_LISTEN_NAME
                \<and> (rule_key_to_state
                      (max_len (get_possible_keys py_set rule_key_to_state (rules policy) states))
                     = []
                   \<or> \<not> truthy (get_active_loop_name (last (rule_key_to_state
                          (max_len (get_possible_keys py_set rule_key_to_state (rules policy)
                             states)))))
                     \<and> Some DO_NOT_PREDICT_LOOP_ACTION
                         \<notin> set (map (map_of (rules_for_loop_unhappy_path policy))
                                (get_possible_keys py_set rule_key_to_state
                                   (rules_for_loop_unhappy_path policy) states))))
        then update apply_to \<lparr>timestamp = now, kind = FormValidation False\<rparr> t
        else t)"
  by (cases "get_possible_keys py_set rule_key_to_state (rules policy) states = []")
     (auto simp: find_action_from_rules_def Let_def)

lemma snd_predict_action_probabilities:
  "snd (predict_action_probabilities prediction_result apply_to py_set rule_key_to_state now
          policy states d t)
     = (if (\<exists>result. rule_default_predictions policy d = Inr result)
           \<and> \<not> truthy_text (find_action_from_default_actions t)
           \<and> \<not> truthy_text (find_action_from_loop_happy_path t)
        then snd (find_action_from_rules apply_to py_set rule_key_to_state now policy states t)
        else t)"
  by (simp add: predict_action_probabilities_def Let_def split: sum.splits prod.splits)

lemma snd_form_predict_action_probabilities:
  "snd (form_predict_action_probabilities prediction_result apply_to recall_states now states d t)
     = (if truthy_text (active_loop_name (proj t))
           \<and> latest_action_name (proj t) = Some ACTION_LISTEN_NAME
           \<and> active_loop_rejected (proj t)
           \<and> state_is_unhappy recall_states states t = Inr True
        then update apply_to \<lparr>timestamp = now, kind = FormValidation False\<rparr> t
        else t)"
  by (simp add: form_predict_action_probabilities_def Let_def split: sum.splits bool.splits)

section \<open>Unknown follow-up action\<close>

text \<open>
  Claim C7. For a tracker with a queued follow-up action whose name is not among the
  domain's action names, the claim is that computing the next action probabilities does
  not raise and falls back to the prediction of the ensemble. The code does otherwise:
  the follow-up is cleared, and then the look-up of its index raises \<open>NameError\<close> for
  that name; the ensemble is not asked.
\<close>

theorem unknown_followup_raises:
  assumes "followup_action (proj t) = Some a" and "a \<noteq> []" and "a \<notin> set (action_names d)"
  shows "get_next_action_probabilities ensemble d t = (Inl (NameError a), clear_followup_action t)"
  using assms
  by (simp add: get_next_action_probabilities_def prob_array_for_action_def
      index_for_action_unknown)

theorem unknown_followup_raises_witness:
  "fst (get_next_action_probabilities (\<lambda>t. ((Some [1], Some ''policy_0_RulePolicy''), t))
          listen_domain followup_tracker)
     = Inl (NameError ''action_gone'')"
  using unknown_followup_raises [of followup_tracker "''action_gone''" listen_domain
      "\<lambda>t. ((Some [1], Some ''policy_0_RulePolicy''), t)"]
  by (simp add: followup_tracker_def listen_domain_def empty_projection_def)

section \<open>Entity filtering\<close>

text \<open>
  Claim C8. For an intent whose configuration in the domain is the internal form of the
  file properties \<open>p\<close>, the entity names that the user sub-state retains for a
  (non-empty) message with that intent are exactly the names of the message's entities
  that are allowed for the intent: included, by being listed under \<open>use_entities\<close> or,
  when \<open>use_entities\<close> is \<open>True\<close> or not given, by being an entity of the domain, and not
  listed under \<open>ignore_entities\<close>. A name that is both included and excluded is
  therefore dropped.
\<close>

theorem entities_retained_are_allowed:
  assumes "py_set_ok py_set"
    and "intent_config d (intent_name m)
           = Some (transform_intent_properties_for_internal_use p (domain_entities d))"
    and "latest_message (proj t) = Some m" and "\<not> is_empty m"
  shows "retained_entities (get_user_sub_state is_empty as_sub_state py_set d t)
           = {n \<in> message_entity_names m. entity_allowed p (domain_entities d) n}
       \<and> set (get_featurized_entities py_set d m)
           = {n \<in> message_entity_names m. entity_allowed p (domain_entities d) n}
       \<and> (\<forall>n ignored. ignore_entities_key p = Some ignored \<and> n \<in> set ignored
              \<longrightarrow> n \<notin> retained_entities (get_user_sub_state is_empty as_sub_state py_set d t))"
proof -
  have r: "retained_entities (get_user_sub_state is_empty as_sub_state py_set d t)
           = {n \<in> message_entity_names m. entity_allowed p (domain_entities d) n}"
    using assms by (simp add: retained_entities_user_sub_state set_get_featurized_entities)
  have x: "\<not> entity_allowed p (domain_entities d) n"
    if "ignore_entities_key p = Some ignored" and "n \<in> set ignored" for n ignored
    using that by (simp add: entity_allowed_def)
  show ?thesis
    using r x assms(1,2) by (auto simp: set_get_featurized_entities)
qed

theorem entities_retained_are_allowed_witness:
  "py_set_ok remdups
   \<and> retained_entities
       (get_user_sub_state (\<lambda>m. False) (\<lambda>m. [(''intent'', VText ''greet'')]) remdups
          greet_domain greet_tracker) = {''city''}
   \<and> retained_entities
       (get_user_sub_state (\<lambda>m. False) (\<lambda>m. [(''intent'', VText ''bye'')]) remdups
          greet_domain bye_tracker) = {''city'', ''time''}"
proof -
  have g: "intent_config greet_domain (intent_name greet_message)
             = Some (transform_intent_properties_for_internal_use greet_file_properties
                       (domain_entities greet_domain))"
    by (simp add: intent_config_def greet_domain_def greet_message_def)
  have b: "intent_config greet_domain (intent_name bye_message)
             = Some (transform_intent_properties_for_internal_use bye_file_properties
                       (domain_entities greet_domain))"
    by (simp add: intent_config_def greet_domain_def bye_message_def)
  have lg: "latest_message (proj greet_tracker) = Some greet_message"
    by (simp add: greet_tracker_def empty_projection_def)
  have lb: "latest_message (proj bye_tracker) = Some bye_message"
    by (simp add: bye_tracker_def empty_projection_def)
  have ne: "\<not> (\<lambda>m::user_uttered. False) m" for m
    by simp
  have de: "domain_entities greet_domain = [''city'', ''name'', ''time'']"
    by (simp add: greet_domain_def)
  have 1: "retained_entities
       (get_user_sub_state (\<lambda>m. False) (\<lambda>m. [(''intent'', VText ''greet'')]) remdups
          greet_domain greet_tracker)
         = {n \<in> message_entity_names greet_message.
              entity_allowed greet_file_properties (domain_entities greet_domain) n}"
    using entities_retained_are_allowed [OF py_set_ok_remdups g lg ne] by blast
  have 2: "retained_entities
       (get_user_sub_state (\<lambda>m. False) (\<lambda>m. [(''intent'', VText ''bye'')]) remdups
          greet_domain bye_tracker)
         = {n \<in> message_entity_names bye_message.
              entity_allowed bye_file_properties (domain_entities greet_domain) n}"
    using entities_retained_are_allowed [OF py_set_ok_remdups b lb ne] by blast
  show ?thesis
    using py_set_ok_remdups
    by (auto simp: 1 2 de example_message_entity_names example_entity_allowed)
qed

section \<open>The circuit breaker\<close>

text \<open>
  Claim C4, as amended. Let the bound be \<open>N \<ge> 1\<close>. Suppose the prediction function never
  raises and never returns a halting action (listen or session start), that at each of
  the \<open>N\<close> tests of the loop condition before an iteration the messages of the tracker
  are handled (it is not paused, or its latest intent is restart) and the run of the
  predicted action returns a list of events (not \<open>None\<close>), and that the test of the loop
  condition after the last iteration does not raise. Then the loop runs exactly \<open>N\<close>
  actions and stops, and the callback is called once if one is registered. If instead
  the prediction function returns a halting action at its prediction number \<open>k < N\<close>
  (counted from 0), after non-halting ones, under the same conditions up to that
  iteration, the loop stops with that action as the last of \<open>k + 1\<close> executed actions and
  the callback is not called.
\<close>

theorem circuit_breaker_bound:
  assumes "max_number_of_predictions P = int N" and "1 \<le> N"
  shows "(never_halts predict
          \<and> (\<forall>k<N. should_handle_message (loop_tracker (state_after apply_to run clock predict k t))
                      = Inr True
                  \<and> run_returns_events run predict
                       (loop_tracker (state_after apply_to run clock predict k t)))
          \<and> (\<exists>b. should_handle_message (loop_tracker (state_after apply_to run clock predict N t))
                   = Inr b)
          \<longrightarrow> fst (predict_and_execute_next_action apply_to run clock predict P t)
                = state_after apply_to run clock predict N t
              \<and> length (executed (fst (predict_and_execute_next_action apply_to run clock predict P t)))
                  = N
              \<and> raised (fst (predict_and_execute_next_action apply_to run clock predict P t)) = None
              \<and> snd (predict_and_execute_next_action apply_to run clock predict P t)
                  = (if on_circuit_break P then 1 else 0))
       \<and> (\<forall>k a. k < N
              \<and> (\<forall>j\<le>k. should_handle_message
                            (loop_tracker (state_after apply_to run clock predict j t)) = Inr True
                        \<and> run_returns_events run predict
                             (loop_tracker (state_after apply_to run clock predict j t)))
              \<and> (\<forall>j<k. \<exists>b. predicted_action predict
                                (loop_tracker (state_after apply_to run clock predict j t)) = Some b
                            \<and> should_predict_another_action b)
              \<and> predicted_action predict
                   (loop_tracker (state_after apply_to run clock predict k t)) = Some a
              \<and> \<not> should_predict_another_action a
          \<longrightarrow> fst (predict_and_execute_next_action apply_to run clock predict P t)
                = state_after apply_to run clock predict (Suc k) t
              \<and> executed (fst (predict_and_execute_next_action apply_to run clock predict P t))
                  = executed (state_after apply_to run clock predict k t) @ [a]
              \<and> length (executed (fst (predict_and_execute_next_action apply_to run clock predict P t)))
                  = Suc k
              \<and> raised (fst (predict_and_execute_next_action apply_to run clock predict P t)) = None
              \<and> snd (predict_and_execute_next_action apply_to run clock predict P t) = 0)"
proof (intro conjI impI allI)
  let ?sa = "state_after apply_to run clock predict"
  let ?loop = "action_loop apply_to run clock predict P"
  {
    assume h: "never_halts predict
          \<and> (\<forall>k<N. should_handle_message (loop_tracker (?sa k t)) = Inr True
                  \<and> run_returns_events run predict (loop_tracker (?sa k t)))
          \<and> (\<exists>b. should_handle_message (loop_tracker (?sa N t)) = Inr b)"
    have pre: "\<forall>j<N. should_handle_message (loop_tracker (?sa j t)) = Inr True
              \<and> run_returns_events run predict (loop_tracker (?sa j t))
              \<and> (\<exists>a. predicted_action predict (loop_tracker (?sa j t)) = Some a
                     \<and> should_predict_another_action a)"
      using h by (auto simp: never_halts_def)
    have r: "?loop (initial_loop_state t) = ?loop (?sa N t)" "should_predict (?sa N t)"
        "num_predicted_actions (?sa N t) = N" "raised (?sa N t) = None"
        "length (executed (?sa N t)) = N"
      using loop_runs [OF assms(1) order_refl pre] by auto
    obtain b where b: "should_handle_message (loop_tracker (?sa N t)) = Inr b"
      using h by blast
    have "?loop (?sa N t) = ?sa N t"
      using b r(3) assms(1) by (intro action_loop_stop) (cases b; simp)
    then have fin: "?loop (initial_loop_state t) = ?sa N t"
      using r(1) by simp
    have res: "predict_and_execute_next_action apply_to run clock predict P t
                = (?sa N t, if on_circuit_break P then 1 else 0)"
      using r assms(1)
      by (simp add: predict_and_execute_next_action_def fin is_action_limit_reached_def)
    show "fst (predict_and_execute_next_action apply_to run clock predict P t) = ?sa N t"
      by (simp add: res)
    show "length (executed (fst (predict_and_execute_next_action apply_to run clock predict P t)))
            = N"
      by (simp add: res r)
    show "raised (fst (predict_and_execute_next_action apply_to run clock predict P t)) = None"
      by (simp add: res r)
    show "snd (predict_and_execute_next_action apply_to run clock predict P t)
            = (if on_circuit_break P then 1 else 0)"
      by (simp add: res)
  }
  fix k a
  assume h: "k < N
      \<and> (\<forall>j\<le>k. should_handle_message (loop_tracker (?sa j t)) = Inr True
                \<and> run_returns_events run predict (loop_tracker (?sa j t)))
      \<and> (\<forall>j<k. \<exists>b. predicted_action predict (loop_tracker (?sa j t)) = Some b
                    \<and> should_predict_another_action b)
      \<and> predicted_action predict (loop_tracker (?sa k t)) = Some a
      \<and> \<not> should_predict_another_action a"
  have pre: "\<forall>j<k. should_handle_message (loop_tracker (?sa j t)) = Inr True
            \<and> run_returns_events run predict (loop_tracker (?sa j t))
            \<and> (\<exists>a. predicted_action predict (loop_tracker (?sa j t)) = Some a
                   \<and> should_predict_another_action a)"
    using h by auto
  have kN: "k \<le> N" using h by simp
  have r: "?loop (initial_loop_state t) = ?loop (?sa k t)" "should_predict (?sa k t)"
      "num_predicted_actions (?sa k t) = k" "raised (?sa k t) = None"
      "length (executed (?sa k t)) = k"
    using loop_runs [OF assms(1) kN pre] by auto
  have pa: "predicted_action predict (loop_tracker (?sa k t)) = Some a"
    using h by simp
  have hk: "should_handle_message (loop_tracker (?sa k t)) = Inr True"
    using h by simp
  have rk: "run_returns_events run predict (loop_tracker (?sa k t))"
    using h by simp
  have lt: "int (num_predicted_actions (?sa k t)) < max_number_of_predictions P"
    using r(3) h assms(1) by simp
  have st: "?loop (?sa k t) = ?loop (?sa (Suc k) t)"
    using action_loop_step [OF r(2) hk lt pa rk] by (simp add: state_after_Suc)
  have f: "\<not> should_predict (?sa (Suc k) t)"
      "raised (?sa (Suc k) t) = None"
      "executed (?sa (Suc k) t) = executed (?sa k t) @ [a]"
    using iteration_fields [OF pa rk, of apply_to clock] h r(4) by (simp_all add: state_after_Suc)
  have "?loop (?sa (Suc k) t) = ?sa (Suc k) t"
    using f(1) by (intro action_loop_stop) simp
  then have fin: "?loop (initial_loop_state t) = ?sa (Suc k) t"
    using r(1) st by simp
  have res: "predict_and_execute_next_action apply_to run clock predict P t = (?sa (Suc k) t, 0)"
    using f by (simp add: predict_and_execute_next_action_def fin is_action_limit_reached_def)
  show "fst (predict_and_execute_next_action apply_to run clock predict P t) = ?sa (Suc k) t"
    by (simp add: res)
  show "executed (fst (predict_and_execute_next_action apply_to run clock predict P t))
          = executed (?sa k t) @ [a]"
    by (simp add: res f)
  show "length (executed (fst (predict_and_execute_next_action apply_to run clock predict P t)))
          = Suc k"
    by (simp add: res f r)
  show "raised (fst (predict_and_execute_next_action apply_to run clock predict P t)) = None"
    by (simp add: res f)
  show "snd (predict_and_execute_next_action apply_to run clock predict P t) = 0"
    by (simp add: res)
qed

theorem circuit_breaker_bound_witness:
  "length (executed (fst (predict_and_execute_next_action identity_fold no_events_run loop_clock
             greet_predict breaker_processor fresh_tracker))) = 2
   \<and> snd (predict_and_execute_next_action identity_fold no_events_run loop_clock
             greet_predict breaker_processor fresh_tracker) = 1
   \<and> executed (fst (predict_and_execute_next_action identity_fold no_events_run loop_clock
             listen_predict breaker_processor fresh_tracker)) = [''action_listen'']
   \<and> snd (predict_and_execute_next_action identity_fold no_events_run loop_clock
             listen_predict breaker_processor fresh_tracker) = 0"
proof -
  have m: "max_number_of_predictions breaker_processor = int 2" "1 \<le> (2::nat)"
    by (simp_all add: breaker_processor_def)
  have h: "should_handle_message
             (loop_tracker (state_after identity_fold no_events_run loop_clock greet_predict k
                fresh_tracker)) = Inr True" for k
    by (simp add: handled_fresh proj_state_after_greet)
  have a: "never_halts greet_predict
          \<and> (\<forall>k<2. should_handle_message
                 (loop_tracker (state_after identity_fold no_events_run loop_clock greet_predict k
                    fresh_tracker)) = Inr True
              \<and> run_returns_events no_events_run greet_predict
                 (loop_tracker (state_after identity_fold no_events_run loop_clock greet_predict k
                    fresh_tracker)))
          \<and> (\<exists>b. should_handle_message
                 (loop_tracker (state_after identity_fold no_events_run loop_clock greet_predict 2
                    fresh_tracker)) = Inr b)"
    using never_halts_greet_predict h run_returns_events_no_events_run by blast
  have b: "(0::nat) < 2
      \<and> (\<forall>j\<le>0. should_handle_message
            (loop_tracker (state_after identity_fold no_events_run loop_clock listen_predict j
               fresh_tracker)) = Inr True
           \<and> run_returns_events no_events_run listen_predict
            (loop_tracker (state_after identity_fold no_events_run loop_clock listen_predict j
               fresh_tracker)))
      \<and> (\<forall>j<0. \<exists>b. predicted_action listen_predict
            (loop_tracker (state_after identity_fold no_events_run loop_clock listen_predict j
               fresh_tracker)) = Some b \<and> should_predict_another_action b)
      \<and> predicted_action listen_predict
            (loop_tracker (state_after identity_fold no_events_run loop_clock listen_predict 0
               fresh_tracker)) = Some ''action_listen''
      \<and> \<not> should_predict_another_action ''action_listen''"
    by (simp add: state_after_def initial_loop_state_def handled_fresh predicted_action_def
        listen_predict_def should_predict_another_action_def ACTION_LISTEN_NAME_def
        run_returns_events_no_events_run)
  have e0: "executed (state_after identity_fold no_events_run loop_clock listen_predict 0
              fresh_tracker) = []"
    by (simp add: state_after_def initial_loop_state_def)
  have cb: "on_circuit_break breaker_processor"
    by (simp add: breaker_processor_def)
  note A = circuit_breaker_bound [OF m, of greet_predict identity_fold no_events_run loop_clock
      fresh_tracker, THEN conjunct1, rule_format, OF a]
  note B = circuit_breaker_bound [OF m, of listen_predict identity_fold no_events_run loop_clock
      fresh_tracker, THEN conjunct2, rule_format, OF b]
  have 1: "length (executed (fst (predict_and_execute_next_action identity_fold no_events_run
             loop_clock greet_predict breaker_processor fresh_tracker))) = 2"
    using A by blast
  have 2: "snd (predict_and_execute_next_action identity_fold no_events_run loop_clock
             greet_predict breaker_processor fresh_tracker)
           = (if on_circuit_break breaker_processor then 1 else 0)"
    using A by blast
  have 3: "executed (fst (predict_and_execute_next_action identity_fold no_events_run loop_clock
             listen_predict breaker_processor fresh_tracker))
           = executed (state_after identity_fold no_events_run loop_clock listen_predict 0
               fresh_tracker) @ [''action_listen'']"
    using B by blast
  have 4: "snd (predict_and_execute_next_action identity_fold no_events_run loop_clock
             listen_predict breaker_processor fresh_tracker) = 0"
    using B by blast
  show ?thesis
    using 1 2 3 4 e0 cb by simp
qed

text \<open>
  The claim as it is stated, without these conditions, fails in two ways, shown here
  with a bound of two and a prediction function that never halts. On a paused tracker
  whose latest intent is not restart the loop runs no action and the callback is not
  called. With an action whose run returns \<open>None\<close> the first action is logged and then
  \<open>TypeError\<close> leaves the loop: no action is counted and the callback is not called.
\<close>

theorem circuit_breaker_paused_counterexample:
  "\<not> (never_halts greet_predict \<and> 1 \<le> max_number_of_predictions breaker_processor
       \<longrightarrow> length (executed (fst (predict_and_execute_next_action identity_fold no_events_run
                  loop_clock greet_predict breaker_processor paused_tracker)))
             = nat (max_number_of_predictions breaker_processor)
           \<and> snd (predict_and_execute_next_action identity_fold no_events_run loop_clock
                  greet_predict breaker_processor paused_tracker) = 1)
   \<and> \<not> (never_halts greet_predict \<and> 1 \<le> max_number_of_predictions breaker_processor
       \<longrightarrow> length (executed (fst (predict_and_execute_next_action identity_fold none_run
                  loop_clock greet_predict breaker_processor fresh_tracker)))
             = nat (max_number_of_predictions breaker_processor)
           \<and> snd (predict_and_execute_next_action identity_fold none_run loop_clock
                  greet_predict breaker_processor fresh_tracker) = 1)
   \<and> raised (fst (predict_and_execute_next_action identity_fold none_run loop_clock
                  greet_predict breaker_processor fresh_tracker)) = Some TypeError"
proof -
  have nh: "should_handle_message paused_tracker = Inr False"
    by (simp add: should_handle_message_def paused_tracker_def empty_projection_def
        greet_message_def USER_INTENT_RESTART_def)
  have p: "action_loop identity_fold no_events_run loop_clock greet_predict breaker_processor
          (initial_loop_state paused_tracker) = initial_loop_state paused_tracker"
    using action_loop_exit_paused [of "initial_loop_state paused_tracker" identity_fold
        no_events_run loop_clock greet_predict breaker_processor] nh
    by (simp add: initial_loop_state_def)
  have hf: "should_handle_message fresh_tracker = Inr True"
    by (simp add: handled_fresh)
  have n: "raised (action_loop identity_fold none_run loop_clock greet_predict breaker_processor
             (initial_loop_state fresh_tracker)) = Some TypeError
         \<and> executed (action_loop identity_fold none_run loop_clock greet_predict
             breaker_processor (initial_loop_state fresh_tracker)) = []"
    using hf
    by (subst action_loop.simps, subst action_loop.simps)
       (simp add: initial_loop_state_def breaker_processor_def greet_predict_def run_action_def
          none_run_def)
  show ?thesis
    using never_halts_greet_predict p n
    by (simp add: predict_and_execute_next_action_def initial_loop_state_def
        breaker_processor_def is_action_limit_reached_def)
qed

section \<open>Failing actions\<close>

text \<open>
  Claim C9. When the external run of an action fails with an exception other than a
  rejection, the tracker receives the \<open>ActionExecuted\<close> event of that action and nothing
  else: the log grows by exactly that event, and both the tracker and the decision to
  go on are what they are for a run of the same action that returns no events.
\<close>

theorem failed_action_logged_without_events:
  assumes "run action t = Fails"
  shows "run_action apply_to run clock action t policy confidence
           = (Inr (should_predict_another_action action),
              update apply_to
                \<lparr>timestamp = clock 0, kind = ActionExecuted action policy confidence\<rparr> t)
       \<and> events (snd (run_action apply_to run clock action t policy confidence))
           = events t @ [\<lparr>timestamp = clock 0, kind = ActionExecuted action policy confidence\<rparr>]
       \<and> run_action apply_to run clock action t policy confidence
           = run_action apply_to (\<lambda>a tr. Returns (Some [])) clock action t policy confidence"
  using assms
  by (simp add: run_action_def log_action_on_tracker_def events_update)

theorem failed_action_logged_without_events_witness:
  "events (snd (run_action identity_fold (\<lambda>a tr. Fails) (loop_clock 0) ''action_weather''
                  fresh_tracker (Some ''policy_0_RulePolicy'') (Some 1)))
     = [\<lparr>timestamp = 0,
         kind = ActionExecuted ''action_weather'' (Some ''policy_0_RulePolicy'') (Some 1)\<rparr>]
   \<and> fst (run_action identity_fold (\<lambda>a tr. Fails) (loop_clock 0) ''action_weather''
            fresh_tracker (Some ''policy_0_RulePolicy'') (Some 1)) = Inr True"
proof -
  have f: "(\<lambda>a tr. Fails) ''action_weather'' fresh_tracker = Fails"
    by simp
  note T = failed_action_logged_without_events [of "\<lambda>a tr. Fails" "''action_weather''"
      fresh_tracker identity_fold "loop_clock 0" "Some ''policy_0_RulePolicy''" "Some 1", OF f]
  have 1: "events (snd (run_action identity_fold (\<lambda>a tr. Fails) (loop_clock 0) ''action_weather''
                fresh_tracker (Some ''policy_0_RulePolicy'') (Some 1)))
           = events fresh_tracker
             @ [\<lparr>timestamp = loop_clock 0 0,
                 kind = ActionExecuted ''action_weather'' (Some ''policy_0_RulePolicy'') (Some 1)\<rparr>]"
    using T by blast
  have "run_action identity_fold (\<lambda>a tr. Fails) (loop_clock 0) ''action_weather'' fresh_tracker
            (Some ''policy_0_RulePolicy'') (Some 1)
          = (Inr (should_predict_another_action ''action_weather''),
             update identity_fold
               \<lparr>timestamp = loop_clock 0 0,
                kind = ActionExecuted ''action_weather'' (Some ''policy_0_RulePolicy'') (Some 1)\<rparr>
               fresh_tracker)"
    using T by blast
  then have 2: "fst (run_action identity_fold (\<lambda>a tr. Fails) (loop_clock 0) ''action_weather''
            fresh_tracker (Some ''policy_0_RulePolicy'') (Some 1))
          = Inr (should_predict_another_action ''action_weather'')"
    by simp
  have 3: "should_predict_another_action ''action_weather''"
    by (simp add: should_predict_another_action_def ACTION_LISTEN_NAME_def
        ACTION_SESSION_START_NAME_def)
  have 4: "events fresh_tracker = []"
    by (simp add: fresh_tracker_def)
  have 5: "loop_clock 0 0 = 0"
    by (simp add: loop_clock_def)
  show ?thesis
    using 1 2 3 4 5 by simp
qed

section \<open>Paused conversations\<close>

text \<open>
  Claim C10. On a paused tracker whose latest message does not have the restart intent,
  the loop of predictions runs no iteration: whatever the prediction function and the
  action runner are, the tracker is the one the loop started with, no action has been
  executed and none has been counted; with a bound of at least one the callback of the
  circuit breaker is not called either.
\<close>

theorem paused_tracker_runs_no_action:
  assumes "paused (proj t)"
    and "\<forall>m. latest_message (proj t) = Some m \<longrightarrow> intent_name m \<noteq> Some USER_INTENT_RESTART"
  shows "loop_tracker (fst (predict_and_execute_next_action apply_to run clock predict P t)) = t
       \<and> executed (fst (predict_and_execute_next_action apply_to run clock predict P t)) = []
       \<and> num_predicted_actions
           (fst (predict_and_execute_next_action apply_to run clock predict P t)) = 0
       \<and> (1 \<le> max_number_of_predictions P
            \<longrightarrow> snd (predict_and_execute_next_action apply_to run clock predict P t) = 0)"
proof -
  have nh: "should_handle_message t \<noteq> Inr True"
    using assms by (auto simp: should_handle_message_def split: option.splits)
  have "action_loop apply_to run clock predict P (initial_loop_state t)
          = (case should_handle_message t of
               Inl e \<Rightarrow> (initial_loop_state t)\<lparr>raised := Some e\<rparr> | Inr b \<Rightarrow> initial_loop_state t)"
    using nh action_loop_exit_paused [of "initial_loop_state t" apply_to run clock predict P]
    by (simp add: initial_loop_state_def)
  then show ?thesis
    by (auto simp: predict_and_execute_next_action_def Let_def initial_loop_state_def
        is_action_limit_reached_def split: sum.splits)
qed

theorem paused_tracker_runs_no_action_witness:
  "paused (proj paused_tracker)
   \<and> loop_tracker (fst (predict_and_execute_next_action identity_fold no_events_run loop_clock
        greet_predict breaker_processor paused_tracker)) = paused_tracker
   \<and> executed (fst (predict_and_execute_next_action identity_fold no_events_run loop_clock
        greet_predict breaker_processor paused_tracker)) = []
   \<and> snd (predict_and_execute_next_action identity_fold no_events_run loop_clock
        greet_predict breaker_processor paused_tracker) = 0"
proof -
  have p: "paused (proj paused_tracker)"
    by (simp add: paused_tracker_def empty_projection_def)
  have i: "\<forall>m. latest_message (proj paused_tracker) = Some m
             \<longrightarrow> intent_name m \<noteq> Some USER_INTENT_RESTART"
    by (simp add: paused_tracker_def empty_projection_def greet_message_def
        USER_INTENT_RESTART_def)
  have b: "1 \<le> max_number_of_predictions breaker_processor"
    by (simp add: breaker_processor_def)
  show ?thesis
    using paused_tracker_runs_no_action [OF p i, of identity_fold no_events_run loop_clock
        greet_predict breaker_processor] p b
    by blast
qed

section \<open>Sessions\<close>

text \<open>
  Claim C5. In a domain that has the session start action, updating the session of a
  tracker, which \<open>handle_message\<close> does before it logs the message and before any
  prediction, runs the session start action exactly when the tracker has no event since
  the last restart, or sessions expire and the time since the last user event, as the
  machine computes it (difference of the two clock readings, divided by 60, in the
  floating point arithmetic given as a parameter), exceeds the expiration time;
  otherwise the tracker is left as it is and the loop of predictions starts from it
  with the user message logged. When the action runs and returns events (a
  \<open>SessionStarted\<close> event among them), the log grows by the executed action followed by
  these events, every one stamped with its own reading of the clock, then by the user
  message, and the loop of predictions starts from the tracker so obtained. When the
  run of the action returns \<open>None\<close>, the executed action is logged and \<open>TypeError\<close> ends
  the handling of the message before any prediction.
\<close>

theorem session_start_before_prediction:
  assumes "ACTION_SESSION_START_NAME \<in> set (action_names (dom P))"
  shows "update_tracker_session apply_to run sclock F now P t
           = (if session_start_due F P now t
              then (case fst (run_action apply_to run sclock ACTION_SESSION_START_NAME t
                                None None) of
                      Inl e \<Rightarrow> Some e | Inr continue \<Rightarrow> None,
                    snd (run_action apply_to run sclock ACTION_SESSION_START_NAME t
                           None None))
              else (None, t))
       \<and> (\<not> session_start_due F P now t
            \<longrightarrow> handle_message apply_to run sclock clock predict F now P user_event t
                  = Inr (predict_and_execute_next_action apply_to run clock predict P
                           (update apply_to user_event t)))
       \<and> (session_start_due F P now t \<and> run ACTION_SESSION_START_NAME t = Returns (Some evs)
            \<longrightarrow> (\<exists>t1. events t1
                         = events t
                           @ \<lparr>timestamp = sclock 0,
                              kind = ActionExecuted ACTION_SESSION_START_NAME None None\<rparr>
                             # map (\<lambda>(j, e). e\<lparr>timestamp := sclock j\<rparr>) (enumerate 1 evs)
                     \<and> update_tracker_session apply_to run sclock F now P t = (None, t1)
                     \<and> handle_message apply_to run sclock clock predict F now P
                          user_event t
                         = Inr (predict_and_execute_next_action apply_to run clock predict P
                                  (update apply_to user_event t1))
                     \<and> events (update apply_to user_event t1) = events t1 @ [user_event]))
       \<and> (session_start_due F P now t \<and> run ACTION_SESSION_START_NAME t = Returns None
            \<longrightarrow> (\<exists>t1. events t1
                         = events t
                           @ [\<lparr>timestamp = sclock 0,
                               kind = ActionExecuted ACTION_SESSION_START_NAME None None\<rparr>]
                     \<and> handle_message apply_to run sclock clock predict F now P
                          user_event t
                         = Inl (TypeError, t1)))"
proof -
  have u: "update_tracker_session apply_to run sclock F now P t
           = (if session_start_due F P now t
              then (case fst (run_action apply_to run sclock ACTION_SESSION_START_NAME t
                                None None) of
                      Inl e \<Rightarrow> Some e | Inr continue \<Rightarrow> None,
                    snd (run_action apply_to run sclock ACTION_SESSION_START_NAME t
                           None None))
              else (None, t))"
    using assms by (rule update_tracker_session_cases)
  have n: "\<not> session_start_due F P now t
            \<longrightarrow> handle_message apply_to run sclock clock predict F now P user_event t
                  = Inr (predict_and_execute_next_action apply_to run clock predict P
                           (update apply_to user_event t))"
    by (simp add: handle_message_def u)
  have s: "session_start_due F P now t \<and> run ACTION_SESSION_START_NAME t = Returns (Some evs)
            \<longrightarrow> (\<exists>t1. events t1
                         = events t
                           @ \<lparr>timestamp = sclock 0,
                              kind = ActionExecuted ACTION_SESSION_START_NAME None None\<rparr>
                             # map (\<lambda>(j, e). e\<lparr>timestamp := sclock j\<rparr>) (enumerate 1 evs)
                     \<and> update_tracker_session apply_to run sclock F now P t = (None, t1)
                     \<and> handle_message apply_to run sclock clock predict F now P
                          user_event t
                         = Inr (predict_and_execute_next_action apply_to run clock predict P
                                  (update apply_to user_event t1))
                     \<and> events (update apply_to user_event t1) = events t1 @ [user_event])"
  proof
    assume h: "session_start_due F P now t
               \<and> run ACTION_SESSION_START_NAME t = Returns (Some evs)"
    let ?t1 = "log_action_on_tracker apply_to sclock t (Some ACTION_SESSION_START_NAME)
                 (Some evs) None None"
    have r: "run_action apply_to run sclock ACTION_SESSION_START_NAME t None None
               = (Inr (should_predict_another_action ACTION_SESSION_START_NAME), ?t1)"
      using h by (simp add: run_action_def)
    have 1: "events ?t1
               = events t
                 @ \<lparr>timestamp = sclock 0,
                    kind = ActionExecuted ACTION_SESSION_START_NAME None None\<rparr>
                   # map (\<lambda>(j, e). e\<lparr>timestamp := sclock j\<rparr>) (enumerate 1 evs)"
      by (simp add: events_log_action_on_tracker)
    have 2: "update_tracker_session apply_to run sclock F now P t = (None, ?t1)"
      using h by (simp add: u r)
    have 3: "handle_message apply_to run sclock clock predict F now P user_event t
               = Inr (predict_and_execute_next_action apply_to run clock predict P
                        (update apply_to user_event ?t1))"
      by (simp add: handle_message_def 2)
    have 4: "events (update apply_to user_event ?t1) = events ?t1 @ [user_event]"
      by (rule events_update)
    show "\<exists>t1. events t1
                 = events t
                   @ \<lparr>timestamp = sclock 0,
                      kind = ActionExecuted ACTION_SESSION_START_NAME None None\<rparr>
                     # map (\<lambda>(j, e). e\<lparr>timestamp := sclock j\<rparr>) (enumerate 1 evs)
             \<and> update_tracker_session apply_to run sclock F now P t = (None, t1)
             \<and> handle_message apply_to run sclock clock predict F now P user_event t
                 = Inr (predict_and_execute_next_action apply_to run clock predict P
                          (update apply_to user_event t1))
             \<and> events (update apply_to user_event t1) = events t1 @ [user_event]"
      using 1 2 3 4 by (intro exI [of _ ?t1] conjI)
  qed
  have e: "session_start_due F P now t \<and> run ACTION_SESSION_START_NAME t = Returns None
            \<longrightarrow> (\<exists>t1. events t1
                         = events t
                           @ [\<lparr>timestamp = sclock 0,
                               kind = ActionExecuted ACTION_SESSION_START_NAME None None\<rparr>]
                     \<and> handle_message apply_to run sclock clock predict F now P
                          user_event t
                         = Inl (TypeError, t1))"
  proof
    assume h: "session_start_due F P now t \<and> run ACTION_SESSION_START_NAME t = Returns None"
    let ?t1 = "log_action_on_tracker apply_to sclock t (Some ACTION_SESSION_START_NAME)
                 None None None"
    have r: "run_action apply_to run sclock ACTION_SESSION_START_NAME t None None
               = (Inl TypeError, ?t1)"
      using h by (simp add: run_action_def)
    have 1: "events ?t1
               = events t
                 @ [\<lparr>timestamp = sclock 0,
                     kind = ActionExecuted ACTION_SESSION_START_NAME None None\<rparr>]"
      by (simp add: events_log_action_on_tracker)
    have 2: "update_tracker_session apply_to run sclock F now P t = (Some TypeError, ?t1)"
      using h by (simp add: u r)
    have 3: "handle_message apply_to run sclock clock predict F now P user_event t
               = Inl (TypeError, ?t1)"
      by (simp add: handle_message_def 2)
    show "\<exists>t1. events t1
                 = events t
                   @ [\<lparr>timestamp = sclock 0,
                       kind = ActionExecuted ACTION_SESSION_START_NAME None None\<rparr>]
             \<and> handle_message apply_to run sclock clock predict F now P user_event t
                 = Inl (TypeError, t1)"
      using 1 3 by (intro exI [of _ ?t1] conjI)
  qed
  show ?thesis
    using u n s e by (intro conjI)
qed

theorem session_start_before_prediction_witness:
  "ACTION_SESSION_START_NAME \<in> set (action_names (dom session_processor))
   \<and> session_start_due exact_arith session_processor 120 old_message_tracker
   \<and> (\<exists>t1. update_tracker_session identity_fold session_run session_clock exact_arith 120
               session_processor old_message_tracker = (None, t1)
          \<and> events t1
              = [\<lparr>timestamp = 0, kind = UserUttered greet_message\<rparr>,
                 \<lparr>timestamp = 120, kind = ActionExecuted ''action_session_start'' None None\<rparr>,
                 \<lparr>timestamp = 121, kind = SessionStarted\<rparr>])
   \<and> \<not> session_start_due exact_arith session_processor 30 old_message_tracker
   \<and> update_tracker_session identity_fold session_run session_clock exact_arith 30
        session_processor old_message_tracker = (None, old_message_tracker)
   \<and> (\<exists>t1. handle_message identity_fold none_run session_clock loop_clock greet_predict
               exact_arith 120 session_processor
               \<lparr>timestamp = 120, kind = UserUttered greet_message\<rparr> old_message_tracker
             = Inl (TypeError, t1))"
proof -
  have a: "ACTION_SESSION_START_NAME \<in> set (action_names (dom session_processor))"
    by (simp add: ACTION_SESSION_START_NAME_def session_processor_def)
  have r: "session_run ACTION_SESSION_START_NAME old_message_tracker
             = Returns (Some [\<lparr>timestamp = 0, kind = SessionStarted\<rparr>])"
    by (simp add: session_run_def ACTION_SESSION_START_NAME_def)
  have rn: "none_run ACTION_SESSION_START_NAME old_message_tracker = Returns None"
    by (simp add: none_run_def)
  note T = session_start_before_prediction [OF a, of identity_fold session_run session_clock
      exact_arith 120 old_message_tracker loop_clock greet_predict
      "\<lparr>timestamp = 120, kind = UserUttered greet_message\<rparr>"
      "[\<lparr>timestamp = 0, kind = SessionStarted\<rparr>]"]
  note U = session_start_before_prediction [OF a, of identity_fold session_run session_clock
      exact_arith 30 old_message_tracker loop_clock greet_predict
      "\<lparr>timestamp = 120, kind = UserUttered greet_message\<rparr>"
      "[\<lparr>timestamp = 0, kind = SessionStarted\<rparr>]"]
  note V = session_start_before_prediction [OF a, of identity_fold none_run session_clock
      exact_arith 120 old_message_tracker loop_clock greet_predict
      "\<lparr>timestamp = 120, kind = UserUttered greet_message\<rparr>"
      "[\<lparr>timestamp = 0, kind = SessionStarted\<rparr>]"]
  have "\<exists>t1. events t1
              = events old_message_tracker
                @ \<lparr>timestamp = session_clock 0,
                   kind = ActionExecuted ACTION_SESSION_START_NAME None None\<rparr>
                  # map (\<lambda>(j, e). e\<lparr>timestamp := session_clock j\<rparr>)
                      (enumerate 1 [\<lparr>timestamp = 0, kind = SessionStarted\<rparr>])
          \<and> update_tracker_session identity_fold session_run session_clock exact_arith 120
               session_processor old_message_tracker = (None, t1)"
    using T due_old r by blast
  then have 1: "\<exists>t1. update_tracker_session identity_fold session_run session_clock exact_arith 120
               session_processor old_message_tracker = (None, t1)
          \<and> events t1
              = [\<lparr>timestamp = 0, kind = UserUttered greet_message\<rparr>,
                 \<lparr>timestamp = 120, kind = ActionExecuted ''action_session_start'' None None\<rparr>,
                 \<lparr>timestamp = 121, kind = SessionStarted\<rparr>]"
    by (auto simp: old_message_tracker_def ACTION_SESSION_START_NAME_def session_clock_def)
  have "update_tracker_session identity_fold session_run session_clock exact_arith 30
          session_processor old_message_tracker
        = (if session_start_due exact_arith session_processor 30 old_message_tracker
           then (case fst (run_action identity_fold session_run session_clock
                             ACTION_SESSION_START_NAME old_message_tracker None None) of
                   Inl e \<Rightarrow> Some e | Inr continue \<Rightarrow> None,
                 snd (run_action identity_fold session_run session_clock
                        ACTION_SESSION_START_NAME old_message_tracker None None))
           else (None, old_message_tracker))"
    using U by blast
  then have 2: "update_tracker_session identity_fold session_run session_clock exact_arith 30
          session_processor old_message_tracker = (None, old_message_tracker)"
    using not_due_old by simp
  have 3: "\<exists>t1. handle_message identity_fold none_run session_clock loop_clock greet_predict
               exact_arith 120 session_processor
               \<lparr>timestamp = 120, kind = UserUttered greet_message\<rparr> old_message_tracker
             = Inl (TypeError, t1)"
    using V due_old rn by blast
  show ?thesis
    using a due_old not_due_old 1 2 3 by (intro conjI)
qed

section \<open>Matching a rule turn\<close>

text \<open>
  Claim C2, as amended. A rule turn matches a live turn (\<open>_does_rule_match_state\<close>)
  exactly when each of its fields matches the sub-state of the same name of the live
  turn, a missing sub-state counting as empty: a field whose rule value is the "must be
  unset" sentinel matches when the field is missing from the live turn or its live value
  is empty (\<open>None\<close>, the empty string, the empty tuple), and does not match a non-empty
  live value; a field with another non-empty rule value must be in the live turn with an
  equal value, a list of the rule being read as a tuple; a field whose rule value is
  empty, and the fields the rule turn does not mention, are unconstrained. For a turn
  index within the rule, \<open>_is_rule_applicable\<close> holds exactly when the rule turn and the
  live turn are both empty, or both non-empty and matching.
\<close>

theorem rule_turn_matching:
  "(does_rule_match_state rule_state conversation_state
      \<longleftrightarrow> (\<forall>(state_type, rule_sub_state) \<in> set rule_state.
             \<forall>(key, v) \<in> set rule_sub_state.
               field_matches (get_sub_state conversation_state state_type) key v))
   \<and> (turn_index < length (rule_key_to_state rule_key)
        \<longrightarrow> (is_rule_applicable rule_key_to_state rule_key turn_index conversation_state
              \<longleftrightarrow> (rev (rule_key_to_state rule_key) ! turn_index = [] \<and> conversation_state = [])
                  \<or> (rev (rule_key_to_state rule_key) ! turn_index \<noteq> []
                     \<and> conversation_state \<noteq> []
                     \<and> does_rule_match_state (rev (rule_key_to_state rule_key) ! turn_index)
                          conversation_state)))"
  by (auto simp: does_rule_match_state_def list_all_iff item_mismatch_iff is_rule_applicable_def
      Let_def)

theorem rule_turn_matching_witness:
  "does_rule_match_state city_unset_rule live_without_city
   \<and> \<not> does_rule_match_state city_unset_rule live_with_city"
  using rule_turn_matching [of city_unset_rule live_without_city 0 "\<lambda>k. []" "''k''", THEN conjunct1]
    rule_turn_matching [of city_unset_rule live_with_city 0 "\<lambda>k. []" "''k''", THEN conjunct1]
  by (simp add: city_unset_rule_def live_without_city_def live_with_city_def field_matches_def
      get_sub_state_def SHOULD_NOT_BE_SET_def)

text \<open>
  The claim as it is stated fails in three ways: the sentinel matches a live turn in
  which the field has the empty string as its value; a rule field with an empty value
  matches a live turn that has another value for it; and a rule turn with the sentinel
  is not applicable to the empty live turn, in which the field is absent.
\<close>

theorem rule_turn_matching_counterexample:
  "does_rule_match_state city_unset_rule [(''slots'', [(''city'', VText [])])]
   \<and> does_rule_match_state [(''user'', [(''intent'', VText [])])]
        [(''user'', [(''intent'', VText ''greet'')])]
   \<and> \<not> is_rule_applicable (\<lambda>k. [city_unset_rule]) ''k'' 0 []"
  by (simp add: does_rule_match_state_def item_mismatch_def py_get_def get_sub_state_def
      city_unset_rule_def SHOULD_NOT_BE_SET_def is_rule_applicable_def)

section \<open>Loop priority\<close>

text \<open>
  Claim C3. Let the policy be valid for the domain (its fallback action, if fallback
  prediction is enabled, is an action of the domain), let no default intent apply (the
  look-up of default actions finds nothing), and let a loop be active and not rejected.
  If the name in the tracker's latest action is not the loop, the policy predicts the
  loop: its result is the prediction result for the loop's name, whatever the two lookup
  tables and the history of states are. If the latest action is the loop, both as the
  name in the latest action and as the tracker's latest action name, the policy predicts
  the listen action. The tracker is left as it is in both cases.
\<close>

theorem active_loop_has_priority:
  assumes "enable_fallback_prediction policy \<longrightarrow> fallback_action_name policy \<in> set (action_names d)"
    and "find_action_from_default_actions t = None"
    and "active_loop_name (proj t) = Some l" and "l \<noteq> []"
    and "\<not> active_loop_rejected (proj t)"
  shows "(latest_action (proj t) ACTION_NAME \<noteq> Some l
          \<longrightarrow> predict_action_probabilities prediction_result apply_to py_set rule_key_to_state now
                policy states d t
              = (prediction_result l t d, t))
       \<and> (latest_action (proj t) ACTION_NAME = Some l \<and> latest_action_name (proj t) = Some l
          \<longrightarrow> predict_action_probabilities prediction_result apply_to py_set rule_key_to_state now
                policy states d t
              = (prediction_result ACTION_LISTEN_NAME t d, t))"
proof -
  obtain res where r: "rule_default_predictions policy d = Inr res"
    using rule_default_predictions_Inr [OF assms(1)] by blast
  have l: "ACTION_LISTEN_NAME \<noteq> []"
    by (simp add: ACTION_LISTEN_NAME_def)
  have d: "\<not> truthy_text (find_action_from_default_actions t)"
    using assms(2) by simp
  have h1: "latest_action (proj t) ACTION_NAME \<noteq> Some l
            \<Longrightarrow> find_action_from_loop_happy_path t = Some l"
    using assms(3-5) by (simp add: find_action_from_loop_happy_path_def Let_def)
  have h2: "latest_action (proj t) ACTION_NAME = Some l \<Longrightarrow> latest_action_name (proj t) = Some l
            \<Longrightarrow> find_action_from_loop_happy_path t = Some ACTION_LISTEN_NAME"
    using assms(3-5) by (simp add: find_action_from_loop_happy_path_def Let_def)
  have p1: "find_action_from_loop_happy_path t = Some a \<Longrightarrow> a \<noteq> []
            \<Longrightarrow> predict_action_probabilities prediction_result apply_to py_set rule_key_to_state
                  now policy states d t = (prediction_result a t d, t)" for a
    using r d by (simp add: predict_action_probabilities_def Let_def)
  show ?thesis
  proof (intro conjI impI)
    assume "latest_action (proj t) ACTION_NAME \<noteq> Some l"
    then have "find_action_from_loop_happy_path t = Some l"
      by (rule h1)
    then show "predict_action_probabilities prediction_result apply_to py_set rule_key_to_state
                 now policy states d t = (prediction_result l t d, t)"
      using assms(4) by (rule p1)
  next
    assume "latest_action (proj t) ACTION_NAME = Some l \<and> latest_action_name (proj t) = Some l"
    then have "find_action_from_loop_happy_path t = Some ACTION_LISTEN_NAME"
      using h2 by simp
    then show "predict_action_probabilities prediction_result apply_to py_set rule_key_to_state
                 now policy states d t = (prediction_result ACTION_LISTEN_NAME t d, t)"
      using l by (rule p1)
  qed
qed

theorem active_loop_has_priority_witness:
  "predict_action_probabilities one_hot_result identity_fold remdups (\<lambda>k. []) 0 no_rules_policy
      [] form_domain form_after_listen
     = (Inr [0, 0, 1], form_after_listen)
   \<and> predict_action_probabilities one_hot_result identity_fold remdups (\<lambda>k. []) 0 no_rules_policy
      [] form_domain form_after_form
     = (Inr [1, 0, 0], form_after_form)"
proof -
  have fb: "enable_fallback_prediction no_rules_policy
            \<longrightarrow> fallback_action_name no_rules_policy \<in> set (action_names form_domain)"
    by (simp add: no_rules_policy_def form_domain_def)
  have a: "active_loop_name (proj form_after_listen) = Some ''form_a''"
      "\<not> active_loop_rejected (proj form_after_listen)"
      "latest_action (proj form_after_listen) ACTION_NAME \<noteq> Some ''form_a''"
    by (simp_all add: form_after_listen_def ACTION_NAME_def)
  have b: "active_loop_name (proj form_after_form) = Some ''form_a''"
      "\<not> active_loop_rejected (proj form_after_form)"
      "latest_action (proj form_after_form) ACTION_NAME = Some ''form_a''
       \<and> latest_action_name (proj form_after_form) = Some ''form_a''"
    by (simp_all add: form_after_form_def ACTION_NAME_def)
  have n: "''form_a'' \<noteq> []" by simp
  note A = active_loop_has_priority [OF fb no_default_form_after_listen a(1) n a(2),
      of one_hot_result identity_fold remdups "\<lambda>k. []" 0 "[]", THEN conjunct1, rule_format, OF a(3)]
  note B = active_loop_has_priority [OF fb no_default_form_after_form b(1) n b(2),
      of one_hot_result identity_fold remdups "\<lambda>k. []" 0 "[]", THEN conjunct2, rule_format, OF b(3)]
  have i1: "index_for_action form_domain ''form_a'' = Inr (Some 2)"
    by (simp add: index_for_action_def form_domain_def)
  have i2: "index_for_action form_domain ACTION_LISTEN_NAME = Inr (Some 0)"
    by (simp add: index_for_action_def form_domain_def ACTION_LISTEN_NAME_def)
  have na: "num_actions form_domain = 3"
    by (simp add: num_actions_def form_domain_def)
  have 1: "one_hot_result ''form_a'' form_after_listen form_domain = Inr [0, 0, 1]"
    by (simp add: one_hot_result_def i1 na numeral_3_eq_3 numeral_2_eq_2)
  have 2: "one_hot_result ACTION_LISTEN_NAME form_after_form form_domain = Inr [1, 0, 0]"
    by (simp add: one_hot_result_def i2 na numeral_3_eq_3)
  show ?thesis
    unfolding A B 1 2 by simp
qed

section \<open>The longest matching rule\<close>

text \<open>
  Claim C1, as amended. The keys that match a history are the keys of the lookup that
  are applicable at every turn of the history, read backwards. When some key matches,
  the policy selects the action of a matching key of greatest length, namely of the
  first such key in the iteration order of the Python set of matching keys: every key
  before it in that order is shorter, and none after it is longer. That order is the one
  of the set, not the order of insertion into the lookup. The one exception is the
  listen action predicted by a general rule inside an active loop: the selection above
  holds unless a loop is active, the action of the selected key is the listen action and
  the last turn of the selected rule names no active loop.
\<close>

theorem longest_matching_rule_wins:
  assumes "py_set_ok py_set"
    and "get_possible_keys py_set rule_key_to_state (rules policy) states \<noteq> []"
    and "truthy_text (active_loop_name (proj t))
         \<and> map_of (rules policy)
              (max_len (get_possible_keys py_set rule_key_to_state (rules policy) states))
             = Some ACTION_LISTEN_NAME
         \<longrightarrow> rule_key_to_state
               (max_len (get_possible_keys py_set rule_key_to_state (rules policy) states)) \<noteq> []
             \<and> truthy (get_active_loop_name (last (rule_key_to_state
                  (max_len (get_possible_keys py_set rule_key_to_state (rules policy) states)))))"
  shows "set (get_possible_keys py_set rule_key_to_state (rules policy) states)
           = {k \<in> fst ` set (rules policy).
                \<forall>i<length states. is_rule_applicable rule_key_to_state k i (rev states ! i)}
       \<and> (\<exists>pre post action.
             get_possible_keys py_set rule_key_to_state (rules policy) states
               = pre @ max_len (get_possible_keys py_set rule_key_to_state (rules policy) states)
                   # post
             \<and> (\<forall>k\<in>set pre. length k
                   < length (max_len (get_possible_keys py_set rule_key_to_state (rules policy) states)))
             \<and> (\<forall>k\<in>set post. length k
                   \<le> length (max_len (get_possible_keys py_set rule_key_to_state (rules policy) states)))
             \<and> map_of (rules policy)
                  (max_len (get_possible_keys py_set rule_key_to_state (rules policy) states))
                 = Some action
             \<and> fst (find_action_from_rules apply_to py_set rule_key_to_state now policy states t)
                 = Inr (Some action))"
proof -
  let ?keys = "get_possible_keys py_set rule_key_to_state (rules policy) states"
  have s: "set ?keys = {k \<in> fst ` set (rules policy).
                \<forall>i<length states. is_rule_applicable rule_key_to_state k i (rev states ! i)}"
    by (rule set_get_possible_keys [OF assms(1)])
  obtain pre post where p: "?keys = pre @ max_len ?keys # post"
      "\<forall>k\<in>set pre. length k < length (max_len ?keys)"
      "\<forall>k\<in>set post. length k \<le> length (max_len ?keys)"
    using max_len_first_longest [OF assms(2)] by blast
  have "max_len ?keys \<in> set ?keys"
    using p(1) by (metis in_set_conv_decomp)
  then have "max_len ?keys \<in> fst ` set (rules policy)"
    using s by blast
  then obtain action where a: "map_of (rules policy) (max_len ?keys) = Some action"
    by (metis map_of_eq_None_iff not_Some_eq)
  have "fst (find_action_from_rules apply_to py_set rule_key_to_state now policy states t)
          = Inr (map_of (rules policy) (max_len ?keys))"
    using assms(2,3) by (rule find_action_from_rules_no_overlay)
  then have "fst (find_action_from_rules apply_to py_set rule_key_to_state now policy states t)
          = Inr (Some action)"
    using a by simp
  then show ?thesis
    using s p a by blast
qed

theorem longest_matching_rule_wins_witness:
  "py_set_ok remdups
   \<and> get_possible_keys remdups json_loads (rules tie_policy) tie_states = [key_a, key_b]
   \<and> length key_a = length key_b
   \<and> fst (find_action_from_rules identity_fold remdups json_loads 0 tie_policy tie_states
             fresh_tracker) = Inr (Some ''utter_a'')
   \<and> get_possible_keys remdups json_loads (rules loop_rules_policy) unhappy_states
       = [key_loop, key_form_listen]
   \<and> length key_loop < length key_form_listen
   \<and> truthy_text (active_loop_name (proj rejected_form_tracker))
   \<and> fst (find_action_from_rules identity_fold remdups json_loads 0 loop_rules_policy
             unhappy_states rejected_form_tracker) = Inr (Some ''action_listen'')"
proof -
  have ne: "get_possible_keys remdups json_loads (rules tie_policy) tie_states \<noteq> []"
    by (simp add: tie_keys_remdups)
  have nl: "truthy_text (active_loop_name (proj fresh_tracker))
         \<and> map_of (rules tie_policy)
              (max_len (get_possible_keys remdups json_loads (rules tie_policy) tie_states))
             = Some ACTION_LISTEN_NAME
         \<longrightarrow> json_loads
               (max_len (get_possible_keys remdups json_loads (rules tie_policy) tie_states)) \<noteq> []
             \<and> truthy (get_active_loop_name (last (json_loads
                  (max_len (get_possible_keys remdups json_loads (rules tie_policy) tie_states)))))"
    using no_loop_fresh_tracker by simp
  from longest_matching_rule_wins [OF py_set_ok_remdups ne nl, of identity_fold 0]
  obtain action where
      "map_of (rules tie_policy)
         (max_len (get_possible_keys remdups json_loads (rules tie_policy) tie_states))
        = Some action"
      "fst (find_action_from_rules identity_fold remdups json_loads 0 tie_policy tie_states
              fresh_tracker) = Inr (Some action)"
    by blast
  then have 1: "fst (find_action_from_rules identity_fold remdups json_loads 0 tie_policy
              tie_states fresh_tracker) = Inr (Some ''utter_a'')"
    by (simp add: tie_keys_remdups tie_max_len tie_actions)
  have ne2: "get_possible_keys remdups json_loads (rules loop_rules_policy) unhappy_states \<noteq> []"
    by (simp add: loop_rules_keys)
  have nl2: "truthy_text (active_loop_name (proj rejected_form_tracker))
         \<and> map_of (rules loop_rules_policy)
              (max_len (get_possible_keys remdups json_loads (rules loop_rules_policy)
                 unhappy_states))
             = Some ACTION_LISTEN_NAME
         \<longrightarrow> json_loads
               (max_len (get_possible_keys remdups json_loads (rules loop_rules_policy)
                  unhappy_states)) \<noteq> []
             \<and> truthy (get_active_loop_name (last (json_loads
                  (max_len (get_possible_keys remdups json_loads (rules loop_rules_policy)
                     unhappy_states)))))"
    using loop_rule_names_loop by (simp add: loop_rules_keys loop_rules_max_len)
  from longest_matching_rule_wins [OF py_set_ok_remdups ne2 nl2, of identity_fold 0]
  obtain action2 where
      "map_of (rules loop_rules_policy)
         (max_len (get_possible_keys remdups json_loads (rules loop_rules_policy) unhappy_states))
        = Some action2"
      "fst (find_action_from_rules identity_fold remdups json_loads 0 loop_rules_policy
              unhappy_states rejected_form_tracker) = Inr (Some action2)"
    by blast
  then have 2: "fst (find_action_from_rules identity_fold remdups json_loads 0 loop_rules_policy
              unhappy_states rejected_form_tracker) = Inr (Some ''action_listen'')"
    by (simp add: loop_rules_keys loop_rules_max_len loop_rules_actions)
  have 3: "truthy_text (active_loop_name (proj rejected_form_tracker))"
    by (simp add: rejected_form_tracker_def)
  have 4: "length key_a = length key_b"
    by (simp add: key_a_def key_b_def)
  show ?thesis
    using 1 2 3 4 py_set_ok_remdups tie_keys_remdups loop_rules_keys loop_rules_max_len(2)
    by (intro conjI)
qed

text \<open>
  The claim as it is stated fails in two ways. With two matching keys of the same
  length, the winner follows the iteration order of the set of keys: the same lookup and
  history give one action under one order and the other action under another, so the
  insertion order of the lookup does not determine it. And inside an active loop, with
  two matching keys of which the longer one belongs to a rule without a loop that
  predicts the listen action, the policy returns the action of the loop, which is the
  action of neither key.
\<close>

theorem longest_matching_rule_wins_counterexample:
  "py_set_ok remdups \<and> py_set_ok b_first_set
   \<and> fst (find_action_from_rules identity_fold remdups json_loads 0 tie_policy tie_states
             fresh_tracker) = Inr (Some ''utter_a'')
   \<and> fst (find_action_from_rules identity_fold b_first_set json_loads 0 tie_policy tie_states
             fresh_tracker) = Inr (Some ''utter_b'')
   \<and> get_possible_keys remdups json_loads (rules chitchat_policy) chitchat_states
       = [key_loop, key_chitchat]
   \<and> length key_loop < length key_chitchat
   \<and> map_of (rules chitchat_policy) key_loop = Some ''utter_ask''
   \<and> map_of (rules chitchat_policy) key_chitchat = Some ''action_listen''
   \<and> fst (find_action_from_rules identity_fold remdups json_loads 0 chitchat_policy chitchat_states
             rejected_form_tracker) = Inr (Some ''form_a'')"
proof -
  have a: "fst (find_action_from_rules identity_fold remdups json_loads 0 tie_policy tie_states
             fresh_tracker) = Inr (Some ''utter_a'')"
    using no_loop_fresh_tracker
    by (simp add: find_action_from_rules_def Let_def tie_keys_remdups tie_max_len tie_actions)
  have b: "fst (find_action_from_rules identity_fold b_first_set json_loads 0 tie_policy tie_states
             fresh_tracker) = Inr (Some ''utter_b'')"
    using no_loop_fresh_tracker
    by (simp add: find_action_from_rules_def Let_def tie_keys_b_first tie_max_len tie_actions)
  show ?thesis
    using a b py_set_ok_remdups py_set_ok_b_first_set chitchat_keys(1) chitchat_max_len(2)
      chitchat_actions chitchat_overlay
    by (intro conjI)
qed

section \<open>Predictions and the tracker\<close>

text \<open>
  Claim C6, as amended. A prediction of the rule policy or of the form policy changes
  the tracker by at most one event, a \<open>FormValidation(False)\<close> stamped with the time of
  the prediction, and otherwise returns the tracker as it is. The rule policy appends
  that event exactly when its default predictions do not raise, neither a default
  action nor an action of the happy path of the loop is found, a loop is active, one of the matching rules of the unhappy path of the loop
  carries the marker \<open>do_not_validate_loop\<close>, and the look-up of the rules does not leave
  early on a listen action predicted by a general rule (selected rule of greatest
  length predicting the listen action, with no turn, or with a last turn that names no
  loop while no matching rule carries the marker \<open>do_not_predict_loop_action\<close>). The
  form policy appends it exactly when a loop is active, the latest action is the listen
  action, the loop has been rejected and the state is a memorized unhappy state.
\<close>

theorem prediction_appends_only_form_validation:
  "snd (find_action_from_rules apply_to py_set rule_key_to_state now policy states t)
     = (if truthy_text (active_loop_name (proj t))
           \<and> Some DO_NOT_VALIDATE_LOOP
               \<in> set (map (map_of (rules_for_loop_unhappy_path policy))
                      (get_possible_keys py_set rule_key_to_state
                         (rules_for_loop_unhappy_path policy) states))
           \<and> \<not> (get_possible_keys py_set rule_key_to_state (rules policy) states \<noteq> []
                \<and> map_of (rules policy)
                     (max_len (get_possible_keys py_set rule_key_to_state (rules policy) states))
                    = Some ACTION_LISTEN_NAME
                \<and> (rule_key_to_state
                      (max_len (get_possible_keys py_set rule_key_to_state (rules policy) states))
                     = []
                   \<or> \<not> truthy (get_active_loop_name (last (rule_key_to_state
                          (max_len (get_possible_keys py_set rule_key_to_state (rules policy)
                             states)))))
                     \<and> Some DO_NOT_PREDICT_LOOP_ACTION
                         \<notin> set (map (map_of (rules_for_loop_unhappy_path policy))
                                (get_possible_keys py_set rule_key_to_state
                                   (rules_for_loop_unhappy_path policy) states))))
        then update apply_to \<lparr>timestamp = now, kind = FormValidation False\<rparr> t
        else t)
   \<and> snd (predict_action_probabilities prediction_result apply_to py_set rule_key_to_state now
          policy states d t)
     = (if (\<exists>result. rule_default_predictions policy d = Inr result)
           \<and> \<not> truthy_text (find_action_from_default_actions t)
           \<and> \<not> truthy_text (find_action_from_loop_happy_path t)
        then snd (find_action_from_rules apply_to py_set rule_key_to_state now policy states t)
        else t)
   \<and> snd (form_predict_action_probabilities prediction_result apply_to recall_states now states
          d t)
     = (if truthy_text (active_loop_name (proj t))
           \<and> latest_action_name (proj t) = Some ACTION_LISTEN_NAME
           \<and> active_loop_rejected (proj t)
           \<and> state_is_unhappy recall_states states t = Inr True
        then update apply_to \<lparr>timestamp = now, kind = FormValidation False\<rparr> t
        else t)
   \<and> (events (snd (predict_action_probabilities prediction_result apply_to py_set
                     rule_key_to_state now policy states d t)) = events t
      \<or> events (snd (predict_action_probabilities prediction_result apply_to py_set
                     rule_key_to_state now policy states d t))
          = events t @ [\<lparr>timestamp = now, kind = FormValidation False\<rparr>])
   \<and> (events (snd (form_predict_action_probabilities prediction_result apply_to recall_states
                     now states d t)) = events t
      \<or> events (snd (form_predict_action_probabilities prediction_result apply_to recall_states
                     now states d t))
          = events t @ [\<lparr>timestamp = now, kind = FormValidation False\<rparr>])"
proof -
  have 4: "events (snd (predict_action_probabilities prediction_result apply_to py_set
                     rule_key_to_state now policy states d t)) = events t
      \<or> events (snd (predict_action_probabilities prediction_result apply_to py_set
                     rule_key_to_state now policy states d t))
          = events t @ [\<lparr>timestamp = now, kind = FormValidation False\<rparr>]"
    unfolding snd_predict_action_probabilities snd_find_action_from_rules
    by (simp add: events_update)
  have 5: "events (snd (form_predict_action_probabilities prediction_result apply_to recall_states
                     now states d t)) = events t
      \<or> events (snd (form_predict_action_probabilities prediction_result apply_to recall_states
                     now states d t))
          = events t @ [\<lparr>timestamp = now, kind = FormValidation False\<rparr>]"
    unfolding snd_form_predict_action_probabilities
    by (simp add: events_update)
  show ?thesis
    using snd_find_action_from_rules [of apply_to py_set rule_key_to_state now policy states t]
      snd_predict_action_probabilities [of prediction_result apply_to py_set rule_key_to_state
        now policy states d t]
      snd_form_predict_action_probabilities [of prediction_result apply_to recall_states now
        states d t]
      4 5
    by (intro conjI)
qed

theorem prediction_appends_only_form_validation_witness:
  "snd (predict_action_probabilities one_hot_result identity_fold remdups json_loads 5
          unhappy_policy unhappy_states form_domain rejected_form_tracker)
     = update identity_fold \<lparr>timestamp = 5, kind = FormValidation False\<rparr> rejected_form_tracker
   \<and> snd (predict_action_probabilities one_hot_result identity_fold remdups json_loads 5
          loop_rules_policy unhappy_states form_domain rejected_form_tracker)
     = rejected_form_tracker
   \<and> snd (form_predict_action_probabilities one_hot_result identity_fold (\<lambda>ms. Some ''form_a'')
          5 unhappy_states form_domain rejected_form_tracker)
     = update identity_fold \<lparr>timestamp = 5, kind = FormValidation False\<rparr> rejected_form_tracker
   \<and> snd (form_predict_action_probabilities one_hot_result identity_fold (\<lambda>ms. None)
          5 unhappy_states form_domain rejected_form_tracker)
     = rejected_form_tracker"
proof -
  note T = prediction_appends_only_form_validation [of identity_fold remdups json_loads 5
      unhappy_policy unhappy_states rejected_form_tracker one_hot_result form_domain
      "\<lambda>ms. Some ''form_a''"]
  note U = prediction_appends_only_form_validation [of identity_fold remdups json_loads 5
      loop_rules_policy unhappy_states rejected_form_tracker one_hot_result form_domain
      "\<lambda>ms. None"]
  have l: "truthy_text (active_loop_name (proj rejected_form_tracker))"
      "latest_action_name (proj rejected_form_tracker) = Some ACTION_LISTEN_NAME"
      "active_loop_rejected (proj rejected_form_tracker)"
    by (simp_all add: rejected_form_tracker_def ACTION_LISTEN_NAME_def)
  have m: "map_of (rules_for_loop_unhappy_path unhappy_policy) key_form_listen
             = Some DO_NOT_VALIDATE_LOOP"
    by (simp add: unhappy_policy_def DO_NOT_VALIDATE_LOOP_def)
  have d: "\<exists>res. rule_default_predictions loop_rules_policy form_domain = Inr res"
    by (rule rule_default_predictions_Inr) (simp add: loop_rules_policy_def form_domain_def)
  have n: "rules_for_loop_unhappy_path loop_rules_policy = []"
    by (simp add: loop_rules_policy_def)
  have k: "get_possible_keys remdups json_loads [] unhappy_states = []"
    by (simp add: get_possible_keys_def unhappy_states_def)
  have u1: "state_is_unhappy (\<lambda>ms. Some ''form_a'') unhappy_states rejected_form_tracker
             = Inr True"
    by (simp add: state_is_unhappy_def modified_states_def unhappy_states_def
        rejected_form_tracker_def Let_def)
  have u2: "state_is_unhappy (\<lambda>ms. None) unhappy_states rejected_form_tracker = Inr False"
    by (simp add: state_is_unhappy_def modified_states_def unhappy_states_def Let_def)
  have a1: "snd (find_action_from_rules identity_fold remdups json_loads 5 unhappy_policy
              unhappy_states rejected_form_tracker)
            = update identity_fold \<lparr>timestamp = 5, kind = FormValidation False\<rparr>
                rejected_form_tracker"
    using T [THEN conjunct1] l m by (simp add: unhappy_keys)
  have a2: "snd (predict_action_probabilities one_hot_result identity_fold remdups json_loads 5
              unhappy_policy unhappy_states form_domain rejected_form_tracker)
            = snd (find_action_from_rules identity_fold remdups json_loads 5 unhappy_policy
                unhappy_states rejected_form_tracker)"
    using T [THEN conjunct2, THEN conjunct1] unhappy_default_predictions
    by (simp add: rejected_form_tracker_no_shortcut)
  have b1: "snd (find_action_from_rules identity_fold remdups json_loads 5 loop_rules_policy
              unhappy_states rejected_form_tracker) = rejected_form_tracker"
    using U [THEN conjunct1] by (simp add: n k)
  have b2: "snd (predict_action_probabilities one_hot_result identity_fold remdups json_loads 5
              loop_rules_policy unhappy_states form_domain rejected_form_tracker)
            = snd (find_action_from_rules identity_fold remdups json_loads 5 loop_rules_policy
                unhappy_states rejected_form_tracker)"
    using U [THEN conjunct2, THEN conjunct1] d
    by (simp add: rejected_form_tracker_no_shortcut)
  have c1: "snd (form_predict_action_probabilities one_hot_result identity_fold
              (\<lambda>ms. Some ''form_a'') 5 unhappy_states form_domain rejected_form_tracker)
            = update identity_fold \<lparr>timestamp = 5, kind = FormValidation False\<rparr>
                rejected_form_tracker"
    using T [THEN conjunct2, THEN conjunct2, THEN conjunct1] l u1 by simp
  have c2: "snd (form_predict_action_probabilities one_hot_result identity_fold (\<lambda>ms. None)
              5 unhappy_states form_domain rejected_form_tracker) = rejected_form_tracker"
    using U [THEN conjunct2, THEN conjunct2, THEN conjunct1] u2 by simp
  show ?thesis
    using a1 a2 b1 b2 c1 c2 by simp
qed

text \<open>
  The claim as it is stated fails: a prediction of the rule policy on a tracker inside a
  rejected loop, with a matching rule of the unhappy path of the loop that carries the
  marker \<open>do_not_validate_loop\<close>, appends a \<open>FormValidation(False)\<close> event to the log of
  the tracker. The form policy does the same on an unhappy state it has memorized.
\<close>

theorem prediction_appends_event_counterexample:
  "events rejected_form_tracker = []
   \<and> events (snd (predict_action_probabilities one_hot_result identity_fold remdups json_loads 5
                    unhappy_policy unhappy_states form_domain rejected_form_tracker))
       = [\<lparr>timestamp = 5, kind = FormValidation False\<rparr>]
   \<and> snd (predict_action_probabilities one_hot_result identity_fold remdups json_loads 5
            unhappy_policy unhappy_states form_domain rejected_form_tracker)
       \<noteq> rejected_form_tracker
   \<and> events (snd (form_predict_action_probabilities one_hot_result identity_fold
                    (\<lambda>ms. Some ''form_a'') 5 unhappy_states form_domain rejected_form_tracker))
       = [\<lparr>timestamp = 5, kind = FormValidation False\<rparr>]"
proof -
  obtain res where res: "rule_default_predictions unhappy_policy form_domain = Inr res"
    using unhappy_default_predictions by blast
  have p: "predict_action_probabilities one_hot_result identity_fold remdups json_loads 5
             unhappy_policy unhappy_states form_domain rejected_form_tracker
           = (Inr res,
              update identity_fold \<lparr>timestamp = 5, kind = FormValidation False\<rparr>
                rejected_form_tracker)"
    by (simp add: predict_action_probabilities_def res rejected_form_tracker_no_shortcut
        unhappy_rule_appends)
  have e: "events rejected_form_tracker = []"
    by (simp add: rejected_form_tracker_def)
  have 1: "events (snd (predict_action_probabilities one_hot_result identity_fold remdups
                    json_loads 5 unhappy_policy unhappy_states form_domain rejected_form_tracker))
       = [\<lparr>timestamp = 5, kind = FormValidation False\<rparr>]"
    by (simp add: p events_update e)
  have 2: "snd (predict_action_probabilities one_hot_result identity_fold remdups json_loads 5
            unhappy_policy unhappy_states form_domain rejected_form_tracker)
       \<noteq> rejected_form_tracker"
    using 1 e by auto
  have u: "state_is_unhappy (\<lambda>ms. Some ''form_a'') unhappy_states rejected_form_tracker
             = Inr True"
    by (simp add: state_is_unhappy_def modified_states_def unhappy_states_def
        rejected_form_tracker_def Let_def)
  have "form_predict_action_probabilities one_hot_result identity_fold
                    (\<lambda>ms. Some ''form_a'') 5 unhappy_states form_domain rejected_form_tracker
          = (Inr (default_predictions form_domain),
             update identity_fold \<lparr>timestamp = 5, kind = FormValidation False\<rparr>
               rejected_form_tracker)"
    using u
    by (simp add: form_predict_action_probabilities_def Let_def rejected_form_tracker_def
        ACTION_LISTEN_NAME_def)
  then have 3: "events (snd (form_predict_action_probabilities one_hot_result identity_fold
                    (\<lambda>ms. Some ''form_a'') 5 unhappy_states form_domain rejected_form_tracker))
       = [\<lparr>timestamp = 5, kind = FormValidation False\<rparr>]"
    using e by (simp add: events_update)
  show ?thesis
    using e 1 2 3 by (intro conjI)
qed

end
